theory Spec2Isabelle
  imports Main "HOL-Library.AList" "HOL-Library.Sublist"
begin

section \<open>Molecules, exceptions and the external toolkit\<close>

text \<open>
  The workflow components of \<^verbatim>\<open>openff/qcsubmit/workflow_components\<close> never look inside a
  molecule: they ask the toolkit to enumerate states of it, and they hand it to the
  component result, which files it under its canonical identity. A molecule is therefore
  its identity together with its conformers (opaque numbers here).
\<close>

type_synonym conformer = nat

record molecule =
  identity :: string
  conformers :: "conformer list"

text \<open>
  Python exceptions are values. \<^verbatim>\<open>except Exception\<close> catches every one of them, whatever
  the constructor; the argument is the exception's text.
\<close>

datatype py_exception =
    KeyError string
  | ValueError string
  | ModuleNotFoundError string
  | ToolkitError string

text \<open>
  The two backend wrapper classes of the OpenFF toolkit, and an instance of one of them as
  it sits in a component's \<^verbatim>\<open>_cache\<close>. \<^verbatim>\<open>EnumerateProtomers._apply\<close> tests the cached instance
  with \<^verbatim>\<open>if has_oe:\<close>; the wrapper classes define neither \<^verbatim>\<open>__bool__\<close> nor \<^verbatim>\<open>__len__\<close>, so the
  Python truth value of an instance is \<^verbatim>\<open>True\<close>.
\<close>

datatype toolkit_class = RDKitToolkitWrapper | OpenEyeToolkitWrapper

record toolkit_wrapper =
  wrapper_class :: toolkit_class

definition truthy :: "toolkit_wrapper \<Rightarrow> bool" where
  "truthy w = True"

type_synonym cache = "string \<rightharpoonup> toolkit_wrapper"

section \<open>Workflow components\<close>

record component_properties =
  process_parallel :: bool
  produces_duplicates :: bool

text \<open>
  The three concrete components of \<^verbatim>\<open>state_enumeration.py\<close> with their pydantic fields, and
  \<^verbatim>\<open>CustomWorkflowComponent\<close> for any other subclass of the abstract base class: what such a
  subclass declares through the abstract class methods (\<^verbatim>\<open>type\<close>, \<^verbatim>\<open>description\<close>,
  \<^verbatim>\<open>fail_reason\<close>, \<^verbatim>\<open>properties\<close>) is carried by the constructor.
\<close>

datatype component =
    EnumerateTautomers (toolkit: string) (max_tautomers: int)
  | EnumerateStereoisomers (toolkit: string) (undefined_only: bool) (max_isomers: int)
      (rationalise: bool)
  | EnumerateProtomers (toolkit: string) (max_states: int)
  | CustomWorkflowComponent (custom_type: string) (custom_description: string)
      (custom_fail_reason: string) (custom_properties: component_properties)

fun type_name :: "component \<Rightarrow> string" where
  "type_name (EnumerateTautomers _ _) = ''EnumerateTautomers''"
| "type_name (EnumerateStereoisomers _ _ _ _) = ''EnumerateStereoisomers''"
| "type_name (EnumerateProtomers _ _) = ''EnumerateProtomers''"
| "type_name (CustomWorkflowComponent t _ _ _) = t"

fun description :: "component \<Rightarrow> string" where
  "description (EnumerateTautomers _ _) =
     ''Enumerate the tautomers of a molecule if possible, returning the input plus any new molecules.''"
| "description (EnumerateStereoisomers _ _ _ _) =
     ''Enumerate the stereo centers and bonds of the molecule, returing the input molecule if valid and any new molecules.''"
| "description (EnumerateProtomers _ _) =
     ''Enumerate the protomers of the molecule, returning the input molecule and any new molecules.''"
| "description (CustomWorkflowComponent _ d _ _) = d"

fun fail_reason :: "component \<Rightarrow> string" where
  "fail_reason (EnumerateTautomers _ _) = ''The molecule tautomers could not be enumerated.''"
| "fail_reason (EnumerateStereoisomers _ _ _ _) =
     ''The molecules stereo centers or bonds could not be enumerated.''"
| "fail_reason (EnumerateProtomers _ _) =
     ''The molecules formal charges could not be enumerated possibly due to a missing toolkit.''"
| "fail_reason (CustomWorkflowComponent _ _ f _) = f"

fun properties :: "component \<Rightarrow> component_properties" where
  "properties (EnumerateTautomers _ _) =
     \<lparr>process_parallel = True, produces_duplicates = True\<rparr>"
| "properties (EnumerateStereoisomers _ _ _ _) =
     \<lparr>process_parallel = True, produces_duplicates = True\<rparr>"
| "properties (EnumerateProtomers _ _) =
     \<lparr>process_parallel = True, produces_duplicates = True\<rparr>"
| "properties (CustomWorkflowComponent _ _ _ p) = p"

text \<open>
  The class-level table \<^verbatim>\<open>_toolkits\<close> of \<^verbatim>\<open>ToolkitValidator\<close>, in the order of the dict
  literal, and its restriction in \<^verbatim>\<open>EnumerateProtomers\<close>.
\<close>

definition default_toolkits :: "(string \<times> toolkit_class) list" where
  "default_toolkits = [(''rdkit'', RDKitToolkitWrapper), (''openeye'', OpenEyeToolkitWrapper)]"

fun toolkits :: "component \<Rightarrow> (string \<times> toolkit_class) list" where
  "toolkits (EnumerateProtomers _ _) = [(''openeye'', OpenEyeToolkitWrapper)]"
| "toolkits _ = default_toolkits"

section \<open>The component result\<close>

text \<open>
  Modelled from the spec: the class \<^verbatim>\<open>ComponentResult\<close> of \<^verbatim>\<open>openff/qcsubmit/datasets.py\<close>
  is imported by both source files but is not among them; the record and the operations
  \<^verbatim>\<open>add_molecule\<close>, \<^verbatim>\<open>filter_molecule\<close>, \<^verbatim>\<open>molecules\<close> and \<^verbatim>\<open>filtered\<close> below follow section 3
  and section 6 of the specification.

  \<^item> \<^verbatim>\<open>passed\<close> maps a canonical identity to a molecule record, \<^verbatim>\<open>filtered\<close> maps a canonical
    identity to the molecule and a failure reason. They are Python dictionaries, so they
    are association lists with distinct keys in insertion order.
  \<^item> \<^verbatim>\<open>component_description\<close> is the component's own declared configuration, captured when
    the result is created (\<^verbatim>\<open>self.dict()\<close> in the source); the failure reason of a filtered
    molecule is the static fail reason of that component.
  \<^item> \<^verbatim>\<open>component_provenance\<close> maps a library name to its version string, in the order in
    which \<^verbatim>\<open>provenance\<close> enters them.
  \<^item> \<^verbatim>\<open>skip_unique_check\<close> is the keyword the source passes in \<^verbatim>\<open>_create_result\<close>.
\<close>

record component_result =
  component_name :: string
  component_description :: component
  component_provenance :: "(string \<times> string) list"
  skip_unique_check :: bool
  passed :: "(string \<times> molecule) list"
  filtered :: "(string \<times> molecule \<times> string) list"

text \<open>
  Modelled from the spec: "repeats with distinct conformers are merged onto the same
  identity" -- the conformers of the repeat that the stored record does not have yet are
  appended to it.
\<close>

definition merge_conformers :: "molecule \<Rightarrow> molecule \<Rightarrow> molecule" where
  "merge_conformers old new =
     old\<lparr>conformers := conformers old @ filter (\<lambda>c. c \<notin> set (conformers old)) (conformers new)\<rparr>"

text \<open>
  Modelled from the spec: \<^verbatim>\<open>ComponentResult.add_molecule\<close>. "Set semantics on the key:
  identical identity is added at most once unless the component explicitly declares it
  intentionally produces duplicates, in which case repeats with distinct conformers are
  merged onto the same identity rather than rejected." The result knows the declaration
  through \<^verbatim>\<open>skip_unique_check\<close>, which \<^verbatim>\<open>_create_result\<close> sets to
  \<^verbatim>\<open>not produces_duplicates\<close>.
\<close>

definition add_molecule :: "component_result \<Rightarrow> molecule \<Rightarrow> component_result" where
  "add_molecule r m =
     (case map_of (passed r) (identity m) of
        None \<Rightarrow> r\<lparr>passed := passed r @ [(identity m, m)]\<rparr>
      | Some old \<Rightarrow>
          if skip_unique_check r then r
          else r\<lparr>passed := AList.update (identity m) (merge_conformers old m) (passed r)\<rparr>)"

text \<open>
  Modelled from the spec: \<^verbatim>\<open>ComponentResult.filter_molecule\<close>. The molecule is entered into
  \<^verbatim>\<open>filtered\<close> under its identity with the component's fail reason, and "a molecule present
  in filtered must not also appear in passed": its identity is taken out of \<^verbatim>\<open>passed\<close>.
\<close>

definition filter_molecule :: "component_result \<Rightarrow> molecule \<Rightarrow> component_result" where
  "filter_molecule r m =
     r\<lparr>passed := AList.delete (identity m) (passed r),
       filtered := AList.update (identity m) (m, fail_reason (component_description r)) (filtered r)\<rparr>"

text \<open>
  Modelled from the spec: the two read-only collections of the result, "materialized from
  the internal mapping on each access": the passed molecules and the filtered molecules, in
  the order of the mappings. The source iterates them as \<^verbatim>\<open>work.molecules\<close> and
  \<^verbatim>\<open>work.filtered\<close>.
\<close>

definition molecules :: "component_result \<Rightarrow> molecule list" where
  "molecules r = map snd (passed r)"

definition filtered_molecules :: "component_result \<Rightarrow> molecule list" where
  "filtered_molecules r = map (\<lambda>(k, m, reason). m) (filtered r)"

section \<open>Validation of the toolkit setting\<close>

text \<open>
  The validator renders the valid choices with \<^verbatim>\<open>cls._toolkits.keys()\<close> inside an f-string,
  which prints as \<^verbatim>\<open>dict_keys(['rdkit', 'openeye'])\<close>. \<^verbatim>\<open>py_repr\<close> is Python's \<^verbatim>\<open>repr\<close> of a string
  that has no quote, backslash or control character in it, which holds for the keys of both
  tables.
\<close>

fun comma_join :: "string list \<Rightarrow> string" where
  "comma_join [] = []"
| "comma_join [x] = x"
| "comma_join (x # y # ys) = x @ '', '' @ comma_join (y # ys)"

definition py_repr :: "string \<Rightarrow> string" where
  "py_repr s = [CHR 0x27] @ s @ [CHR 0x27]"

definition dict_keys_repr :: "string list \<Rightarrow> string" where
  "dict_keys_repr ks = ''dict_keys(['' @ comma_join (map py_repr ks) @ ''])''"

text \<open>
  \<^verbatim>\<open>ToolkitValidator._check_toolkit\<close>, a class method: its first argument is the table
  \<^verbatim>\<open>cls._toolkits\<close> of the class being configured.
\<close>

definition check_toolkit ::
  "(string \<times> toolkit_class) list \<Rightarrow> string \<Rightarrow> py_exception + string" where
  "check_toolkit tks tk =
     (if tk \<notin> set (map fst tks)
      then Inl (ValueError (''The requested toolkit ('' @ tk @ '') is not support by the OFFTK. '' @
                            ''Please chose from '' @ dict_keys_repr (map fst tks) @ ''.''))
      else Inr tk)"

text \<open>
  pydantic runs the validator of a field when a value is supplied for it, at construction
  and (with \<^verbatim>\<open>validate_assignment\<close>) at assignment, and stores what the validator returns.
  \<^verbatim>\<open>validate_component\<close> is that step for the \<^verbatim>\<open>toolkit\<close> field; it involves no molecule. A
  component without the \<^verbatim>\<open>ToolkitValidator\<close> mixin has no such field.
\<close>

fun validate_component :: "component \<Rightarrow> py_exception + component" where
  "validate_component (EnumerateTautomers tk n) =
     (case check_toolkit (toolkits (EnumerateTautomers tk n)) tk of
        Inl e \<Rightarrow> Inl e | Inr tk' \<Rightarrow> Inr (EnumerateTautomers tk' n))"
| "validate_component (EnumerateStereoisomers tk u n r) =
     (case check_toolkit (toolkits (EnumerateStereoisomers tk u n r)) tk of
        Inl e \<Rightarrow> Inl e | Inr tk' \<Rightarrow> Inr (EnumerateStereoisomers tk' u n r))"
| "validate_component (EnumerateProtomers tk n) =
     (case check_toolkit (toolkits (EnumerateProtomers tk n)) tk of
        Inl e \<Rightarrow> Inl e | Inr tk' \<Rightarrow> Inr (EnumerateProtomers tk' n))"
| "validate_component (CustomWorkflowComponent t d f p) = Inr (CustomWorkflowComponent t d f p)"

lemma sublist_comma_join: "k \<in> set ks \<Longrightarrow> sublist k (comma_join ks)"
proof (induction ks rule: comma_join.induct)
  case 1
  then show ?case by simp
next
  case (2 x)
  then show ?case by simp
next
  case (3 x y ys)
  show ?case
  proof (cases "k = x")
    case True
    then show ?thesis by (simp add: sublist_append_rightI)
  next
    case False
    with 3 have "sublist k (comma_join (y # ys))" by simp
    then have "sublist k ((x @ '', '') @ comma_join (y # ys))"
      by (meson sublist_append)
    then show ?thesis by simp
  qed
qed

lemma sublist_py_repr: "sublist k (py_repr k)"
  unfolding py_repr_def by (rule sublist_appendI)

lemma sublist_dict_keys_repr:
  assumes "k \<in> set ks"
  shows "sublist k (dict_keys_repr ks)"
proof -
  have "py_repr k \<in> set (map py_repr ks)" using assms by simp
  then have "sublist (py_repr k) (comma_join (map py_repr ks))" by (rule sublist_comma_join)
  then have "sublist k (comma_join (map py_repr ks))"
    using sublist_py_repr sublist_order.order_trans by blast
  then have "sublist k (''dict_keys(['' @ comma_join (map py_repr ks) @ ''])'')"
    by (meson sublist_append)
  then show ?thesis by (simp add: dict_keys_repr_def)
qed

lemma check_toolkit_rejects:
  assumes "tk \<notin> fst ` set tks"
  shows "\<exists>msg. check_toolkit tks tk = Inl (ValueError msg) \<and> sublist tk msg \<and>
           (\<forall>k \<in> fst ` set tks. sublist k msg)"
proof -
  let ?pre = "''The requested toolkit (''"
  let ?mid = "'') is not support by the OFFTK. '' @ ''Please chose from ''"
  let ?msg = "?pre @ tk @ ?mid @ dict_keys_repr (map fst tks) @ ''.''"
  have eq: "check_toolkit tks tk = Inl (ValueError ?msg)"
    using assms by (simp add: check_toolkit_def)
  have a: "sublist tk ?msg" by (rule sublist_appendI)
  have b: "sublist k ?msg" if "k \<in> fst ` set tks" for k
  proof -
    have "sublist k (dict_keys_repr (map fst tks))"
      using that by (intro sublist_dict_keys_repr) simp
    then have "sublist k ((?pre @ tk @ ?mid) @ dict_keys_repr (map fst tks) @ ''.'')"
      by (meson sublist_append)
    then show ?thesis by simp
  qed
  from eq a b show ?thesis by blast
qed

text \<open>
  C8: for each of the three components with a \<^verbatim>\<open>toolkit\<close> field, a name that is not a key of
  the class's table is rejected by the validator, hence by the validation of the
  configuration (a step that takes the configuration alone, before any \<^verbatim>\<open>apply\<close>), with a
  \<^verbatim>\<open>ValueError\<close> whose text contains the rejected name and every valid choice; a name that is
  a key is returned unchanged and the configuration is accepted as it is.
\<close>

theorem C8_unknown_toolkit_rejected:
  assumes "c = EnumerateTautomers tk n \<or> c = EnumerateStereoisomers tk u n r \<or>
           c = EnumerateProtomers tk n"
  shows "(tk \<notin> fst ` set (toolkits c) \<longrightarrow>
            (\<exists>msg. check_toolkit (toolkits c) tk = Inl (ValueError msg) \<and>
                   validate_component c = Inl (ValueError msg) \<and>
                   sublist tk msg \<and> (\<forall>k \<in> fst ` set (toolkits c). sublist k msg))) \<and>
         (tk \<in> fst ` set (toolkits c) \<longrightarrow>
            check_toolkit (toolkits c) tk = Inr tk \<and> validate_component c = Inr c)"
proof (intro conjI impI)
  assume bad: "tk \<notin> fst ` set (toolkits c)"
  from check_toolkit_rejects [OF bad] obtain msg where
    m: "check_toolkit (toolkits c) tk = Inl (ValueError msg)" "sublist tk msg"
       "\<forall>k \<in> fst ` set (toolkits c). sublist k msg" by blast
  from assms m(1) have "validate_component c = Inl (ValueError msg)" by auto
  with m show "\<exists>msg. check_toolkit (toolkits c) tk = Inl (ValueError msg) \<and>
                   validate_component c = Inl (ValueError msg) \<and>
                   sublist tk msg \<and> (\<forall>k \<in> fst ` set (toolkits c). sublist k msg)" by blast
next
  assume ok: "tk \<in> fst ` set (toolkits c)"
  then show "check_toolkit (toolkits c) tk = Inr tk" by (simp add: check_toolkit_def)
  with assms show "validate_component c = Inr c" by auto
qed

theorem C8_unknown_toolkit_rejected_witness:
  "(\<exists>msg. validate_component (EnumerateProtomers ''rdkit'' 10) = Inl (ValueError msg) \<and>
          sublist ''rdkit'' msg \<and> sublist ''openeye'' msg) \<and>
   validate_component (EnumerateTautomers ''rdkit'' 20) = Inr (EnumerateTautomers ''rdkit'' 20)"
proof -
  have "\<exists>msg. validate_component (EnumerateProtomers ''rdkit'' 10) = Inl (ValueError msg) \<and>
          sublist ''rdkit'' msg \<and> sublist ''openeye'' msg"
    using C8_unknown_toolkit_rejected [of "EnumerateProtomers ''rdkit'' 10" "''rdkit''" 10]
    by (auto simp del: validate_component.simps)
  moreover have "validate_component (EnumerateTautomers ''rdkit'' 20) =
      Inr (EnumerateTautomers ''rdkit'' 20)"
    using C8_unknown_toolkit_rejected [of "EnumerateTautomers ''rdkit'' 20" "''rdkit''" 20]
    by (simp add: default_toolkits_def del: validate_component.simps)
  ultimately show ?thesis by blast
qed

section \<open>The availability probe\<close>

text \<open>
  \<^verbatim>\<open>which_import\<close> belongs to the external library qcelemental. It is modelled by its
  contract for the keyword arguments the source passes (\<^verbatim>\<open>return_bool=True\<close> always): the
  answer is \<^verbatim>\<open>True\<close> when the module is found; when it is not, \<^verbatim>\<open>raise_error\<close> decides
  between raising \<^verbatim>\<open>ModuleNotFoundError\<close>, whose text ends with \<^verbatim>\<open>raise_msg\<close>, and returning
  \<^verbatim>\<open>False\<close>. Which modules the installation has is the parameter \<^verbatim>\<open>found\<close>, asked for the
  absolute module name (\<^verbatim>\<open>.oechem\<close> relative to the package \<^verbatim>\<open>openeye\<close> is
  \<^verbatim>\<open>openeye.oechem\<close>).
\<close>

definition resolve_name :: "string \<Rightarrow> string \<Rightarrow> string" where
  "resolve_name module package = (case module of CHR ''.'' # _ \<Rightarrow> package @ module | _ \<Rightarrow> module)"

definition which_import ::
  "(string \<Rightarrow> bool) \<Rightarrow> string \<Rightarrow> string \<Rightarrow> bool \<Rightarrow> string \<Rightarrow> py_exception + bool" where
  "which_import found module package raise_error raise_msg =
     (if found (resolve_name module package) then Inr True
      else if raise_error
      then Inl (ModuleNotFoundError (''Python module '' @ py_repr module @
                  '' not found in envvar PYTHONPATH. '' @ raise_msg))
      else Inr False)"

text \<open>The three message texts of \<^verbatim>\<open>ToolkitValidator.is_available\<close>.\<close>

definition openeye_install :: string where
  "openeye_install = ''Please install via `conda install openeye-toolkits -c openeye`.''"

definition rdkit_install :: string where
  "rdkit_install = ''Please install via `conda install rdkit -c conda-forge`.''"

definition both_missing :: string where
  "both_missing = ''Openeye or RDKit is required to use this component please install via `conda install openeye-toolkits -c openeye` or `conda install rdkit -c conda-forge`.''"

text \<open>
  \<^verbatim>\<open>ToolkitValidator.is_available\<close>, a class method: \<^verbatim>\<open>tks\<close> is \<^verbatim>\<open>cls._toolkits\<close>. The loop over the
  keys of the table is \<^verbatim>\<open>probe_toolkits\<close>; falling out of the loop reaches the final
  \<^verbatim>\<open>raise\<close>. \<^verbatim>\<open>basic_is_available\<close> is \<^verbatim>\<open>BasicSettings.is_available\<close>.
\<close>

fun probe_toolkits :: "(string \<Rightarrow> bool) \<Rightarrow> bool \<Rightarrow> string list \<Rightarrow> py_exception + bool" where
  "probe_toolkits found raise_error [] = Inl (ModuleNotFoundError both_missing)"
| "probe_toolkits found raise_error (t # ts) =
     (if t = ''openeye'' then
        (case which_import found ''.oechem'' ''openeye'' raise_error openeye_install of
           Inl e \<Rightarrow> Inl e
         | Inr oe \<Rightarrow> if oe then Inr True else probe_toolkits found raise_error ts)
      else if t = ''rdkit'' then
        (case which_import found ''rdkit'' [] raise_error rdkit_install of
           Inl e \<Rightarrow> Inl e
         | Inr rdkit \<Rightarrow> if rdkit then Inr True else probe_toolkits found raise_error ts)
      else probe_toolkits found raise_error ts)"

definition is_available :: "(string \<Rightarrow> bool) \<Rightarrow> (string \<times> toolkit_class) list \<Rightarrow> py_exception + bool" where
  "is_available found tks =
     (let raise_error = (length tks = 1) in probe_toolkits found raise_error (map fst tks))"

definition basic_is_available :: "py_exception + bool" where
  "basic_is_available = Inr True"

text \<open>Some provider registered in the table is installed.\<close>

definition provider_found :: "(string \<Rightarrow> bool) \<Rightarrow> string list \<Rightarrow> bool" where
  "provider_found found ks =
     ((''openeye'' \<in> set ks \<and> found ''openeye.oechem'') \<or> (''rdkit'' \<in> set ks \<and> found ''rdkit''))"

lemma resolve_simps [simp]:
  "resolve_name ''.oechem'' ''openeye'' = ''openeye.oechem''"
  "resolve_name ''rdkit'' [] = ''rdkit''"
  by (simp_all add: resolve_name_def)

lemma probe_found:
  "provider_found found ks \<Longrightarrow> length ks = 1 \<or> \<not> re \<Longrightarrow> probe_toolkits found re ks = Inr True"
proof (induction ks)
  case Nil
  then show ?case by (simp add: provider_found_def)
next
  case (Cons t ts)
  show ?case
  proof (cases "ts = []")
    case True
    with Cons.prems show ?thesis
      by (auto simp: provider_found_def which_import_def)
  next
    case False
    with Cons.prems have nre: "\<not> re" by (cases ts) auto
    show ?thesis
    proof (cases "provider_found found ts")
      case True
      with Cons.IH nre have "probe_toolkits found re ts = Inr True" by simp
      with nre show ?thesis by (simp add: which_import_def)
    next
      case False
      with Cons.prems(1) have "(t = ''openeye'' \<and> found ''openeye.oechem'') \<or> (t = ''rdkit'' \<and> found ''rdkit'')"
        by (auto simp: provider_found_def)
      then show ?thesis by (auto simp: which_import_def)
    qed
  qed
qed

lemma probe_missing:
  "\<not> provider_found found ks \<Longrightarrow> \<not> re \<Longrightarrow>
   probe_toolkits found re ks = Inl (ModuleNotFoundError both_missing)"
  by (induction ks) (auto simp: provider_found_def which_import_def)

lemma probe_never_False: "probe_toolkits found re ks \<noteq> Inr False"
  by (induction ks) (auto simp: which_import_def)

lemma openeye_install_split:
  "openeye_install = ''Please install via `'' @ ''conda install openeye-toolkits -c openeye'' @ ''`.''"
  by (simp add: openeye_install_def)

lemma rdkit_install_split:
  "rdkit_install = ''Please install via `'' @ ''conda install rdkit -c conda-forge'' @ ''`.''"
  by (simp add: rdkit_install_def)

lemma both_missing_split:
  "both_missing = ''Openeye or RDKit is required to use this component please install via `'' @
     ''conda install'' @ '' openeye-toolkits -c openeye` or `conda install rdkit -c conda-forge`.''"
  by (simp add: both_missing_def)

lemma sublist_conda_prefix: "sublist ''conda install'' (''conda install'' @ rest)"
  by (rule sublist_append_rightI)

lemma conda_openeye: "sublist ''conda install openeye-toolkits -c openeye'' (pre @ openeye_install)"
  unfolding openeye_install_split by (meson sublist_append sublist_appendI)

lemma conda_in_openeye: "sublist ''conda install'' (pre @ openeye_install)"
proof -
  have "sublist ''conda install'' (''conda install'' @ '' openeye-toolkits -c openeye'')"
    by (rule sublist_append_rightI)
  then have "sublist ''conda install'' ''conda install openeye-toolkits -c openeye''" by simp
  with conda_openeye [of pre] show ?thesis
    using sublist_order.order_trans by blast
qed

lemma conda_in_rdkit: "sublist ''conda install'' (pre @ rdkit_install)"
proof -
  have "sublist ''conda install'' (''conda install'' @ '' rdkit -c conda-forge'')"
    by (rule sublist_append_rightI)
  then have a: "sublist ''conda install'' ''conda install rdkit -c conda-forge''" by simp
  have "sublist ''conda install rdkit -c conda-forge'' (pre @ rdkit_install)"
    unfolding rdkit_install_split by (meson sublist_append sublist_appendI)
  with a show ?thesis using sublist_order.order_trans by blast
qed

lemma conda_in_both_missing: "sublist ''conda install'' both_missing"
  unfolding both_missing_split by (rule sublist_appendI)

lemma which_import_raises:
  "which_import found m p re msg = Inl e \<Longrightarrow>
   e = ModuleNotFoundError ((''Python module '' @ py_repr m @ '' not found in envvar PYTHONPATH. '') @ msg)"
  by (auto simp: which_import_def split: if_splits)

lemma probe_raises:
  "probe_toolkits found re ks = Inl e \<Longrightarrow>
   \<exists>msg. e = ModuleNotFoundError msg \<and> sublist ''conda install'' msg"
proof (induction ks)
  case Nil
  then show ?case using conda_in_both_missing by auto
next
  case (Cons t ts)
  consider (oe) "t = ''openeye''" | (rd) "t \<noteq> ''openeye''" "t = ''rdkit''"
    | (other) "t \<noteq> ''openeye''" "t \<noteq> ''rdkit''" by blast
  then show ?case
  proof cases
    case oe
    show ?thesis
    proof (cases "which_import found ''.oechem'' ''openeye'' re openeye_install")
      case (Inl e')
      with oe Cons.prems have "e = e'" by simp
      with which_import_raises [OF Inl] conda_in_openeye show ?thesis by blast
    next
      case (Inr b)
      with oe Cons.prems have "probe_toolkits found re ts = Inl e" by (simp split: if_splits)
      then show ?thesis by (rule Cons.IH)
    qed
  next
    case rd
    show ?thesis
    proof (cases "which_import found ''rdkit'' [] re rdkit_install")
      case (Inl e')
      with rd Cons.prems have "e = e'" by simp
      with which_import_raises [OF Inl] conda_in_rdkit show ?thesis by blast
    next
      case (Inr b)
      with rd Cons.prems have "probe_toolkits found re ts = Inl e" by (simp split: if_splits)
      then show ?thesis by (rule Cons.IH)
    qed
  next
    case other
    with Cons.prems have "probe_toolkits found re ts = Inl e" by simp
    then show ?thesis by (rule Cons.IH)
  qed
qed

lemma probe_cases:
  "probe_toolkits found re ks = Inr True \<or> (\<exists>e. probe_toolkits found re ks = Inl e)"
  using probe_never_False [of found re ks] by (cases "probe_toolkits found re ks") auto

lemma probe_True_found:
  "probe_toolkits found re ks = Inr True \<Longrightarrow> provider_found found ks"
  by (induction ks) (auto simp: provider_found_def which_import_def split: if_splits)

text \<open>
  C9, against the claim: the tautomer enumerator registers two providers, so it does not
  hard-require a single one; with neither installed \<^verbatim>\<open>is_available\<close> does not return
  \<^verbatim>\<open>False\<close>, it raises.
\<close>

theorem C9_two_providers_missing_raises:
  "length (toolkits (EnumerateTautomers ''openeye'' 20)) = 2 \<and>
   is_available (\<lambda>m. False) (toolkits (EnumerateTautomers ''openeye'' 20)) =
     Inl (ModuleNotFoundError both_missing)"
  by (simp add: is_available_def default_toolkits_def which_import_def)

text \<open>
  C9, amended: \<^verbatim>\<open>is_available\<close> never returns \<^verbatim>\<open>False\<close>. It returns \<^verbatim>\<open>True\<close> exactly when a
  provider registered for the class is installed (and always for the \<^verbatim>\<open>BasicSettings\<close>
  mixin); otherwise it raises \<^verbatim>\<open>ModuleNotFoundError\<close> with install instructions: the text
  naming both OpenEye and RDKit when the class registers several providers, and for the
  protomer enumerator, which registers OpenEye alone, a text naming the missing module
  and the conda command and channel that install it.
\<close>

theorem C9_is_available:
  "is_available found tks \<noteq> Inr False \<and>
   basic_is_available = Inr True \<and>
   ((is_available found tks = Inr True) = provider_found found (map fst tks)) \<and>
   (\<not> provider_found found (map fst tks) \<longrightarrow>
      (\<exists>msg. is_available found tks = Inl (ModuleNotFoundError msg) \<and>
             sublist ''conda install'' msg)) \<and>
   (\<not> provider_found found (map fst tks) \<and> length tks \<noteq> 1 \<longrightarrow>
      is_available found tks = Inl (ModuleNotFoundError both_missing)) \<and>
   (\<not> found ''openeye.oechem'' \<longrightarrow>
      (\<exists>msg. is_available found (toolkits (EnumerateProtomers tk n)) = Inl (ModuleNotFoundError msg) \<and>
             sublist ''.oechem'' msg \<and>
             sublist ''conda install openeye-toolkits -c openeye'' msg))"
proof (intro conjI impI)
  show "is_available found tks \<noteq> Inr False"
    by (simp add: is_available_def probe_never_False)
  show "basic_is_available = Inr True" by (simp add: basic_is_available_def)
  show "(is_available found tks = Inr True) = provider_found found (map fst tks)"
    using probe_found [of found "map fst tks" "length tks = 1"]
      probe_True_found [of found "length tks = 1" "map fst tks"]
    by (auto simp: is_available_def)
next
  assume nf: "\<not> provider_found found (map fst tks)"
  from probe_cases [of found "length tks = 1" "map fst tks"] nf
    probe_True_found [of found "length tks = 1" "map fst tks"]
  obtain e where "probe_toolkits found (length tks = 1) (map fst tks) = Inl e" by blast
  with probe_raises [OF this]
  show "\<exists>msg. is_available found tks = Inl (ModuleNotFoundError msg) \<and>
             sublist ''conda install'' msg"
    by (auto simp: is_available_def)
next
  assume "\<not> provider_found found (map fst tks) \<and> length tks \<noteq> 1"
  then show "is_available found tks = Inl (ModuleNotFoundError both_missing)"
    by (simp add: is_available_def probe_missing)
next
  assume nf: "\<not> found ''openeye.oechem''"
  let ?pre = "''Python module '' @ py_repr ''.oechem'' @ '' not found in envvar PYTHONPATH. ''"
  from nf have eq: "is_available found (toolkits (EnumerateProtomers tk n)) =
      Inl (ModuleNotFoundError (?pre @ openeye_install))"
    by (simp add: is_available_def which_import_def)
  have "sublist (py_repr ''.oechem'') ((''Python module '' @ py_repr ''.oechem'' @ '' not found in envvar PYTHONPATH. '') @ openeye_install)"
    by (metis append.assoc sublist_appendI)
  then have a: "sublist ''.oechem'' (?pre @ openeye_install)"
    using sublist_py_repr sublist_order.order_trans by blast
  from eq a conda_openeye [of ?pre]
  show "\<exists>msg. is_available found (toolkits (EnumerateProtomers tk n)) = Inl (ModuleNotFoundError msg) \<and>
             sublist ''.oechem'' msg \<and>
             sublist ''conda install openeye-toolkits -c openeye'' msg"
    by blast
qed

text \<open>An installation that has RDKit and not OpenEye.\<close>

definition only_rdkit :: "string \<Rightarrow> bool" where
  "only_rdkit m = (m = ''rdkit'')"

theorem C9_is_available_witness:
  "is_available only_rdkit default_toolkits = Inr True \<and>
   is_available (\<lambda>m. False) default_toolkits = Inl (ModuleNotFoundError both_missing) \<and>
   (\<exists>msg. is_available only_rdkit (toolkits (EnumerateProtomers ''openeye'' 10)) =
      Inl (ModuleNotFoundError msg) \<and> sublist ''conda install openeye-toolkits -c openeye'' msg)"
proof -
  have a: "is_available only_rdkit default_toolkits = Inr True"
    using C9_is_available [of only_rdkit default_toolkits]
    by (simp add: provider_found_def default_toolkits_def only_rdkit_def)
  have b: "is_available (\<lambda>m. False) default_toolkits = Inl (ModuleNotFoundError both_missing)"
    using C9_is_available [of "\<lambda>m. False" default_toolkits]
    by (simp add: provider_found_def default_toolkits_def)
  have c: "\<exists>msg. is_available only_rdkit (toolkits (EnumerateProtomers ''openeye'' 10)) =
      Inl (ModuleNotFoundError msg) \<and> sublist ''conda install openeye-toolkits -c openeye'' msg"
    using C9_is_available [of only_rdkit default_toolkits "''openeye''" 10]
    by (auto simp: only_rdkit_def)
  from a b c show ?thesis by blast
qed

section \<open>The toolkit backend\<close>

text \<open>
  The chemistry is done by external libraries and is a parameter of the embedding. Each
  operation either returns or raises. \<^verbatim>\<open>new_wrapper\<close> is the call \<^verbatim>\<open>cls()\<close> of a wrapper class;
  the enumerations are the methods of \<^verbatim>\<open>Molecule\<close> (the tautomer and stereoisomer ones take
  the cached wrapper as \<^verbatim>\<open>toolkit_registry\<close>); \<^verbatim>\<open>generate_conformers\<close> returns the conformers
  it stores in the molecule, and leaves the molecule as it was when it raises.
  \<^verbatim>\<open>check_missing_stereo\<close> of \<^verbatim>\<open>openff/qcsubmit/utils.py\<close> is imported by the source and not
  part of it: it is a parameter too. \<^verbatim>\<open>importable\<close> says whether an \<^verbatim>\<open>import\<close> of a package
  succeeds in the installation, \<^verbatim>\<open>version\<close> is the \<^verbatim>\<open>__version__\<close> of an imported package.
  \<^verbatim>\<open>custom_apply\<close> and \<^verbatim>\<open>custom_provenance\<close> are the abstract methods \<^verbatim>\<open>_apply\<close> and
  \<^verbatim>\<open>provenance\<close> as some other subclass implements them.
\<close>

record backend =
  new_wrapper :: "toolkit_class \<Rightarrow> py_exception + toolkit_wrapper"
  enumerate_tautomers :: "molecule \<Rightarrow> int \<Rightarrow> toolkit_wrapper \<Rightarrow> py_exception + molecule list"
  enumerate_stereoisomers ::
    "molecule \<Rightarrow> bool \<Rightarrow> int \<Rightarrow> bool \<Rightarrow> toolkit_wrapper \<Rightarrow> py_exception + molecule list"
  enumerate_protomers :: "molecule \<Rightarrow> int \<Rightarrow> py_exception + molecule list"
  generate_conformers :: "molecule \<Rightarrow> int \<Rightarrow> py_exception + conformer list"
  check_missing_stereo :: "molecule \<Rightarrow> py_exception + bool"
  importable :: "string \<Rightarrow> bool"
  version :: "string \<Rightarrow> string"
  custom_apply :: "component \<Rightarrow> cache \<Rightarrow> molecule list \<Rightarrow> py_exception + component_result"
  custom_provenance :: "component \<Rightarrow> py_exception + (string \<times> string) list"

section \<open>Creation of results\<close>

text \<open>
  \<^verbatim>\<open>ToolkitValidator.provenance\<close>, for the toolkit name of the component. The two packages of
  OpenFF are imported by the module itself; \<^verbatim>\<open>import rdkit\<close> and \<^verbatim>\<open>import openeye\<close> raise
  \<^verbatim>\<open>ModuleNotFoundError\<close> when the package is not installed.
\<close>

definition toolkit_provenance :: "backend \<Rightarrow> string \<Rightarrow> py_exception + (string \<times> string) list" where
  "toolkit_provenance b tk =
     (let prov = [(''openff-toolkit'', version b ''openff.toolkit''),
                  (''openff-qcsubmit'', version b ''openff.qcsubmit'')]
      in if tk = ''rdkit'' then
           (if importable b ''rdkit'' then Inr (prov @ [(''rdkit'', version b ''rdkit'')])
            else Inl (ModuleNotFoundError (''No module named '' @ py_repr ''rdkit'')))
         else if tk = ''openeye'' then
           (if importable b ''openeye'' then Inr (prov @ [(''openeye'', version b ''openeye'')])
            else Inl (ModuleNotFoundError (''No module named '' @ py_repr ''openeye'')))
         else Inr prov)"

fun provenance :: "backend \<Rightarrow> component \<Rightarrow> py_exception + (string \<times> string) list" where
  "provenance b (CustomWorkflowComponent t d f p) =
     custom_provenance b (CustomWorkflowComponent t d f p)"
| "provenance b c = toolkit_provenance b (toolkit c)"

text \<open>
  The result that \<^verbatim>\<open>_create_result\<close> constructs once the provenance is collected: the
  four keyword arguments are those of the source (\<^verbatim>\<open>self.type\<close>, \<^verbatim>\<open>self.dict()\<close>, the
  provenance, \<^verbatim>\<open>not self.properties().produces_duplicates\<close>), and the two collections of
  the new result are empty.
\<close>

definition new_result :: "component \<Rightarrow> (string \<times> string) list \<Rightarrow> component_result" where
  "new_result c prov =
     \<lparr>component_name = type_name c,
      component_description = c,
      component_provenance = prov,
      skip_unique_check = (\<not> produces_duplicates (properties c)),
      passed = [],
      filtered = []\<rparr>"

text \<open>
  \<^verbatim>\<open>CustomWorkflowComponent._create_result\<close> (called without keyword arguments): an exception
  of \<^verbatim>\<open>self.provenance()\<close> leaves it.
\<close>

definition create_result :: "backend \<Rightarrow> component \<Rightarrow> py_exception + component_result" where
  "create_result b c =
     (case provenance b c of
        Inl e \<Rightarrow> Inl e
      | Inr prov \<Rightarrow> Inr (new_result c prov))"

section \<open>The per-molecule transforms\<close>

text \<open>
  A \<^verbatim>\<open>try\<close> block leaves behind the result as far as it was updated, the molecule as far as
  it was updated, and the exception that ended it, if any. \<^verbatim>\<open>except Exception:
  result.filter_molecule(molecule)\<close> is \<^verbatim>\<open>except_filter\<close>: the text of the exception is not
  looked at.
\<close>

type_synonym attempt = "component_result \<times> molecule \<times> py_exception option"

fun except_filter :: "attempt \<Rightarrow> component_result" where
  "except_filter (result, molecule, None) = result"
| "except_filter (result, molecule, Some e) = filter_molecule result molecule"

text \<open>The \<^verbatim>\<open>try\<close> block of \<^verbatim>\<open>EnumerateTautomers._apply\<close>.\<close>

definition try_tautomers ::
  "backend \<Rightarrow> int \<Rightarrow> toolkit_wrapper \<Rightarrow> component_result \<Rightarrow> molecule \<Rightarrow> attempt" where
  "try_tautomers b max_n tk result m =
     (case enumerate_tautomers b m max_n tk of
        Inl e \<Rightarrow> (result, m, Some e)
      | Inr tautomers \<Rightarrow> (add_molecule (foldl add_molecule result tautomers) m, m, None))"

text \<open>
  The \<^verbatim>\<open>try\<close> block of \<^verbatim>\<open>EnumerateStereoisomers._apply\<close>: the loop over the isomers, then the
  input molecule.
\<close>

fun add_defined ::
  "backend \<Rightarrow> component_result \<Rightarrow> molecule list \<Rightarrow> component_result \<times> py_exception option" where
  "add_defined b result [] = (result, None)"
| "add_defined b result (isomer # isomers) =
     (case check_missing_stereo b isomer of
        Inl e \<Rightarrow> (result, Some e)
      | Inr missing \<Rightarrow>
          add_defined b (if \<not> missing then add_molecule result isomer else result) isomers)"

definition try_stereoisomers ::
  "backend \<Rightarrow> bool \<Rightarrow> int \<Rightarrow> bool \<Rightarrow> toolkit_wrapper \<Rightarrow> component_result \<Rightarrow> molecule \<Rightarrow> attempt"
  where
  "try_stereoisomers b undef max_n rational tk result m =
     (case enumerate_stereoisomers b m undef max_n rational tk of
        Inl e \<Rightarrow> (result, m, Some e)
      | Inr isomers \<Rightarrow>
          (case add_defined b result isomers of
             (result1, Some e) \<Rightarrow> (result1, m, Some e)
           | (result1, None) \<Rightarrow>
               (case (if rational
                      then (case generate_conformers b m 1 of
                              Inl e \<Rightarrow> Inl e
                            | Inr cs \<Rightarrow> Inr (m\<lparr>conformers := cs\<rparr>))
                      else Inr m) of
                  Inl e \<Rightarrow> (result1, m, Some e)
                | Inr m1 \<Rightarrow>
                    (case check_missing_stereo b m1 of
                       Inl e \<Rightarrow> (result1, m1, Some e)
                     | Inr missing \<Rightarrow>
                         (if \<not> missing then add_molecule result1 m1 else result1, m1, None)))))"

text \<open>The \<^verbatim>\<open>try\<close> block of \<^verbatim>\<open>EnumerateProtomers._apply\<close>.\<close>

definition try_protomers :: "backend \<Rightarrow> int \<Rightarrow> component_result \<Rightarrow> molecule \<Rightarrow> attempt" where
  "try_protomers b max_n result m =
     (case enumerate_protomers b m max_n of
        Inl e \<Rightarrow> (result, m, Some e)
      | Inr protomers \<Rightarrow> (add_molecule (foldl add_molecule result protomers) m, m, None))"

text \<open>
  \<^verbatim>\<open>_apply\<close> of each component. \<^verbatim>\<open>self._cache["toolkit"]\<close> raises \<^verbatim>\<open>KeyError\<close> when the cache
  has no such entry, and \<^verbatim>\<open>self._create_result()\<close> raises when the provenance cannot be
  collected, both outside any \<^verbatim>\<open>try\<close>; the tautomer and the stereoisomer enumerator read
  the cache first, the protomer enumerator creates the result first. The loops over the
  molecules are folds of the loop bodies. The protomer enumerator tests the cached
  instance before its loop and filters every molecule when the test fails.
\<close>

fun apply_inner ::
  "backend \<Rightarrow> component \<Rightarrow> cache \<Rightarrow> molecule list \<Rightarrow> py_exception + component_result" where
  "apply_inner b (EnumerateTautomers t max_n) cache ms =
     (case cache ''toolkit'' of
        None \<Rightarrow> Inl (KeyError ''toolkit'')
      | Some tk \<Rightarrow>
          (case create_result b (EnumerateTautomers t max_n) of
             Inl e \<Rightarrow> Inl e
           | Inr result0 \<Rightarrow>
               Inr (foldl (\<lambda>result m. except_filter (try_tautomers b max_n tk result m))
                      result0 ms)))"
| "apply_inner b (EnumerateStereoisomers t undef max_n rational) cache ms =
     (case cache ''toolkit'' of
        None \<Rightarrow> Inl (KeyError ''toolkit'')
      | Some tk \<Rightarrow>
          (case create_result b (EnumerateStereoisomers t undef max_n rational) of
             Inl e \<Rightarrow> Inl e
           | Inr result0 \<Rightarrow>
               Inr (foldl (\<lambda>result m.
                        except_filter (try_stereoisomers b undef max_n rational tk result m))
                      result0 ms)))"
| "apply_inner b (EnumerateProtomers t max_n) cache ms =
     (case create_result b (EnumerateProtomers t max_n) of
        Inl e \<Rightarrow> Inl e
      | Inr result0 \<Rightarrow>
          (case cache ''toolkit'' of
             None \<Rightarrow> Inl (KeyError ''toolkit'')
           | Some has_oe \<Rightarrow>
               if truthy has_oe
               then Inr (foldl (\<lambda>result m. except_filter (try_protomers b max_n result m))
                           result0 ms)
               else Inr (foldl filter_molecule result0 ms)))"
| "apply_inner b (CustomWorkflowComponent t d f p) cache ms =
     custom_apply b (CustomWorkflowComponent t d f p) cache ms"

section \<open>The dispatcher\<close>

text \<open>
  \<^verbatim>\<open>_apply_init\<close>: the three enumerators override it and store a new instance of the wrapper
  class that \<^verbatim>\<open>self.toolkit\<close> names (a missing key and a failing constructor both raise);
  the base class clears the cache. \<^verbatim>\<open>_apply_finalize\<close> is the base class's for all of them:
  it clears the cache. Neither touches the result they are passed.
\<close>

fun apply_init :: "backend \<Rightarrow> component \<Rightarrow> cache \<Rightarrow> py_exception + cache" where
  "apply_init b (CustomWorkflowComponent t d f p) cache = Inr Map.empty"
| "apply_init b c cache =
     (case map_of (toolkits c) (toolkit c) of
        None \<Rightarrow> Inl (KeyError (toolkit c))
      | Some cls \<Rightarrow>
          (case new_wrapper b cls of
             Inl e \<Rightarrow> Inl e
           | Inr w \<Rightarrow> Inr (cache(''toolkit'' \<mapsto> w))))"

definition apply_finalize :: "component \<Rightarrow> cache \<Rightarrow> cache" where
  "apply_finalize c cache = Map.empty"

text \<open>
  The two inner loops of \<^verbatim>\<open>apply\<close> over one unit's outcome: every passed molecule of the unit
  is added to the top-level result, then every filtered one is filtered.
\<close>

definition merge_work :: "component_result \<Rightarrow> component_result \<Rightarrow> component_result" where
  "merge_work result work =
     foldl filter_molecule (foldl add_molecule result (molecules work)) (filtered_molecules work)"

text \<open>
  The sequential branch: one call of \<^verbatim>\<open>_apply\<close> on a singleton list per molecule, merged at
  once. An exception that \<^verbatim>\<open>_apply\<close> lets through ends \<^verbatim>\<open>apply\<close>.
\<close>

fun run_sequential ::
  "backend \<Rightarrow> component \<Rightarrow> cache \<Rightarrow> component_result \<Rightarrow> molecule list \<Rightarrow>
   py_exception + component_result" where
  "run_sequential b c cache result [] = Inr result"
| "run_sequential b c cache result (m # ms) =
     (case apply_inner b c cache [m] of
        Inl e \<Rightarrow> Inl e
      | Inr work \<Rightarrow> run_sequential b c cache (merge_work result work) ms)"

text \<open>
  The pool branch: \<^verbatim>\<open>work_list\<close> holds one asynchronous call of \<^verbatim>\<open>_apply\<close> on a singleton
  list per molecule. A worker process runs the call on its own copies of the component
  (cache included) and of the molecule, so its outcome is the value of \<^verbatim>\<open>_apply\<close> there, an
  exception included. The second loop takes the outcomes with \<^verbatim>\<open>work.get()\<close> in the order
  of \<^verbatim>\<open>work_list\<close>, whatever the order in which the workers finish, and \<^verbatim>\<open>get\<close> raises the
  worker's exception again.
\<close>

fun collect_work ::
  "component_result \<Rightarrow> (py_exception + component_result) list \<Rightarrow> py_exception + component_result"
  where
  "collect_work result [] = Inr result"
| "collect_work result (w # ws) =
     (case w of
        Inl e \<Rightarrow> Inl e
      | Inr work \<Rightarrow> collect_work (merge_work result work) ws)"

definition run_pool ::
  "backend \<Rightarrow> component \<Rightarrow> cache \<Rightarrow> component_result \<Rightarrow> molecule list \<Rightarrow>
   py_exception + component_result" where
  "run_pool b c cache result ms =
     (let work_list = map (\<lambda>molecule. apply_inner b c cache [molecule]) ms
      in collect_work result work_list)"

text \<open>
  Which branch \<^verbatim>\<open>apply\<close> takes is the one effect of it that its result does not show; the
  outcome of the embedding records it: \<^verbatim>\<open>WorkerPool processors\<close> stands for
  \<^verbatim>\<open>Pool(processes=processors)\<close>.
\<close>

datatype execution = WorkerPool "int option" | Sequential

record outcome =
  result :: component_result
  final_cache :: cache
  execution :: execution

text \<open>
  \<^verbatim>\<open>CustomWorkflowComponent.apply\<close>. \<^verbatim>\<open>cache0\<close> is the component's \<^verbatim>\<open>_cache\<close> at the call;
  \<^verbatim>\<open>verbose\<close> only switches the progress bar. Its first statement creates the result, its
  second runs \<^verbatim>\<open>_apply_init\<close>; an exception of either leaves \<^verbatim>\<open>apply\<close>.
\<close>

definition apply_dispatch ::
  "backend \<Rightarrow> component \<Rightarrow> cache \<Rightarrow> molecule list \<Rightarrow> int option \<Rightarrow> bool \<Rightarrow>
   py_exception + outcome" where
  "apply_dispatch b c cache0 ms processors verbose =
     (case create_result b c of
        Inl e \<Rightarrow> Inl e
      | Inr result0 \<Rightarrow>
          (case apply_init b c cache0 of
             Inl e \<Rightarrow> Inl e
           | Inr cache \<Rightarrow>
               if (case processors of None \<Rightarrow> True | Some n \<Rightarrow> n > 1) \<and>
                  process_parallel (properties c)
               then
                 (case run_pool b c cache result0 ms of
                    Inl e \<Rightarrow> Inl e
                  | Inr r \<Rightarrow>
                      Inr \<lparr>result = r, final_cache = apply_finalize c cache,
                           execution = WorkerPool processors\<rparr>)
               else
                 (case run_sequential b c cache result0 ms of
                    Inl e \<Rightarrow> Inl e
                  | Inr r \<Rightarrow>
                      Inr \<lparr>result = r, final_cache = apply_finalize c cache,
                           execution = Sequential\<rparr>)))"

section \<open>Identities held by a result\<close>

text \<open>
  The keys of the two mappings, and the invariant of every result the components build:
  keys are distinct, every molecule sits under its own identity, and every failure reason
  is the static fail reason of the component the result belongs to.
\<close>

definition passed_ids :: "component_result \<Rightarrow> string set" where
  "passed_ids r = fst ` set (passed r)"

definition filtered_ids :: "component_result \<Rightarrow> string set" where
  "filtered_ids r = fst ` set (filtered r)"

definition well_keyed :: "component_result \<Rightarrow> bool" where
  "well_keyed r =
     (distinct (map fst (passed r)) \<and> distinct (map fst (filtered r)) \<and>
      (\<forall>(k, m) \<in> set (passed r). identity m = k) \<and>
      (\<forall>(k, m, reason) \<in> set (filtered r).
          identity m = k \<and> reason = fail_reason (component_description r)))"

lemma add_molecule_fields [simp]:
  "filtered (add_molecule r m) = filtered r"
  "component_description (add_molecule r m) = component_description r"
  "component_name (add_molecule r m) = component_name r"
  "skip_unique_check (add_molecule r m) = skip_unique_check r"
  by (simp_all add: add_molecule_def split: option.splits)

lemma filter_molecule_fields [simp]:
  "component_description (filter_molecule r m) = component_description r"
  "component_name (filter_molecule r m) = component_name r"
  "skip_unique_check (filter_molecule r m) = skip_unique_check r"
  by (simp_all add: filter_molecule_def)

lemma passed_ids_add [simp]:
  "passed_ids (add_molecule r m) = insert (identity m) (passed_ids r)"
proof (cases "map_of (passed r) (identity m)")
  case None
  then show ?thesis by (simp add: add_molecule_def passed_ids_def)
next
  case (Some old)
  then have "identity m \<in> fst ` set (passed r)"
    by (auto dest!: map_of_SomeD intro: rev_image_eqI)
  with Some show ?thesis
    by (auto simp: add_molecule_def passed_ids_def AList.dom_update)
qed

lemma filtered_ids_add [simp]: "filtered_ids (add_molecule r m) = filtered_ids r"
  by (simp add: filtered_ids_def)

lemma passed_ids_filter [simp]:
  "passed_ids (filter_molecule r m) = passed_ids r - {identity m}"
  by (simp add: filter_molecule_def passed_ids_def AList.delete_eq) force

lemma filtered_ids_filter [simp]:
  "filtered_ids (filter_molecule r m) = insert (identity m) (filtered_ids r)"
  by (simp add: filter_molecule_def filtered_ids_def AList.dom_update)


lemma well_keyed_new [simp]: "well_keyed (new_result c prov)"
  by (simp add: well_keyed_def new_result_def)

lemma set_update_subset:
  "set (AList.update k v al) \<subseteq> insert (k, v) (set al)"
  by (induction al) auto

lemma well_keyed_add [simp]:
  assumes "well_keyed r"
  shows "well_keyed (add_molecule r m)"
proof (cases "map_of (passed r) (identity m)")
  case None
  then have "identity m \<notin> fst ` set (passed r)"
    by (simp add: map_of_eq_None_iff)
  with assms None show ?thesis
    by (auto simp: well_keyed_def add_molecule_def)
next
  case (Some old)
  have id: "identity (merge_conformers old m) = identity m"
    using assms Some by (auto simp: merge_conformers_def well_keyed_def dest!: map_of_SomeD)
  show ?thesis
  proof (cases "skip_unique_check r")
    case True
    with Some assms show ?thesis by (simp add: add_molecule_def well_keyed_def)
  next
    case False
    have "\<forall>(k, x) \<in> set (AList.update (identity m) (merge_conformers old m) (passed r)).
            identity x = k"
      using set_update_subset [of "identity m" "merge_conformers old m" "passed r"] assms id
      by (auto simp: well_keyed_def)
    with False Some assms show ?thesis
      by (simp add: add_molecule_def well_keyed_def AList.distinct_update)
  qed
qed

lemma well_keyed_filter [simp]:
  assumes "well_keyed r"
  shows "well_keyed (filter_molecule r m)"
proof -
  have a: "\<forall>(k, x) \<in> set (AList.delete (identity m) (passed r)). identity x = k"
    using assms by (auto simp: well_keyed_def AList.delete_eq)
  have b: "\<forall>(k, x, reason) \<in> set (AList.update (identity m)
              (m, fail_reason (component_description r)) (filtered r)).
            identity x = k \<and> reason = fail_reason (component_description r)"
    using set_update_subset [of "identity m" "(m, fail_reason (component_description r))"
        "filtered r"] assms
    by (auto simp: well_keyed_def)
  from a b assms show ?thesis
    by (simp add: well_keyed_def filter_molecule_def AList.distinct_update AList.distinct_delete)
qed

section \<open>Folding molecules into a result\<close>

lemma foldl_add_fields [simp]:
  "filtered (foldl add_molecule r ms) = filtered r"
  "component_description (foldl add_molecule r ms) = component_description r"
  "skip_unique_check (foldl add_molecule r ms) = skip_unique_check r"
  by (induction ms arbitrary: r) simp_all

lemma passed_ids_foldl_add [simp]:
  "passed_ids (foldl add_molecule r ms) = passed_ids r \<union> identity ` set ms"
  by (induction ms arbitrary: r) auto

lemma filtered_ids_foldl_add [simp]:
  "filtered_ids (foldl add_molecule r ms) = filtered_ids r"
  by (simp add: filtered_ids_def)

lemma well_keyed_foldl_add [simp]:
  "well_keyed r \<Longrightarrow> well_keyed (foldl add_molecule r ms)"
  by (induction ms arbitrary: r) simp_all

lemma foldl_filter_fields [simp]:
  "component_description (foldl filter_molecule r ms) = component_description r"
  "skip_unique_check (foldl filter_molecule r ms) = skip_unique_check r"
  by (induction ms arbitrary: r) simp_all

lemma passed_ids_foldl_filter [simp]:
  "passed_ids (foldl filter_molecule r ms) = passed_ids r - identity ` set ms"
  by (induction ms arbitrary: r) auto

lemma filtered_ids_foldl_filter [simp]:
  "filtered_ids (foldl filter_molecule r ms) = filtered_ids r \<union> identity ` set ms"
  by (induction ms arbitrary: r) auto

lemma well_keyed_foldl_filter [simp]:
  "well_keyed r \<Longrightarrow> well_keyed (foldl filter_molecule r ms)"
  by (induction ms arbitrary: r) simp_all

text \<open>Adding molecules of new, pairwise different identities appends them in order.\<close>

lemma passed_add_fresh:
  "identity m \<notin> passed_ids r \<Longrightarrow> passed (add_molecule r m) = passed r @ [(identity m, m)]"
  by (simp add: add_molecule_def passed_ids_def map_of_eq_None_iff[THEN iffD2])

lemma passed_foldl_add_fresh:
  "distinct (map identity ms) \<Longrightarrow> identity ` set ms \<inter> passed_ids r = {} \<Longrightarrow>
   passed (foldl add_molecule r ms) = passed r @ map (\<lambda>m. (identity m, m)) ms"
proof (induction ms arbitrary: r)
  case Nil
  then show ?case by simp
next
  case (Cons m ms)
  from Cons.prems have fresh: "identity m \<notin> passed_ids r" by auto
  from Cons.prems have "identity ` set ms \<inter> passed_ids (add_molecule r m) = {}" by auto
  with Cons.IH [of "add_molecule r m"] Cons.prems(1)
  have "passed (foldl add_molecule (add_molecule r m) ms) =
        passed (add_molecule r m) @ map (\<lambda>m. (identity m, m)) ms" by simp
  with fresh show ?case by (simp add: passed_add_fresh)
qed

lemma passed_ids_new [simp]: "passed_ids (new_result c prov) = {}"
  by (simp add: passed_ids_def new_result_def)

lemma filtered_ids_new [simp]: "filtered_ids (new_result c prov) = {}"
  by (simp add: filtered_ids_def new_result_def)

lemma new_result_fields [simp]:
  "passed (new_result c prov) = []" "filtered (new_result c prov) = []"
  "component_description (new_result c prov) = c"
  "skip_unique_check (new_result c prov) = (\<not> produces_duplicates (properties c))"
  "component_name (new_result c prov) = type_name c"
  by (simp_all add: new_result_def)

lemma create_result_cases:
  "(provenance b c = Inr prov \<longrightarrow> create_result b c = Inr (new_result c prov)) \<and>
   (provenance b c = Inl e \<longrightarrow> create_result b c = Inl e) \<and>
   (create_result b c = Inr r \<longrightarrow> (\<exists>prov. provenance b c = Inr prov \<and> r = new_result c prov))"
  by (auto simp: create_result_def split: sum.splits)

lemma merge_work_no_filtered:
  assumes "filtered work = []" "distinct (map identity (molecules work))"
  shows "passed (merge_work (new_result c prov) work) =
           map (\<lambda>m. (identity m, m)) (molecules work) \<and>
         filtered (merge_work (new_result c prov) work) = []"
  using assms passed_foldl_add_fresh [of "molecules work" "new_result c prov"]
  by (simp add: merge_work_def filtered_molecules_def)

section \<open>A backend to run the components on\<close>

text \<open>
  A small concrete backend for running the embedding: every wrapper can be constructed; the
  molecule \<^verbatim>\<open>keto\<close> has three tautomers; \<^verbatim>\<open>CHFClBr\<close> has undefined stereochemistry and three
  candidate isomers, one of which (\<^verbatim>\<open>open\<close>) is itself not fully defined; every toolkit
  call on \<^verbatim>\<open>bad\<close> raises, and \<^verbatim>\<open>bad\<close> is the one tautomer of \<^verbatim>\<open>twin\<close>; every package is
  installed.
\<close>

definition mol :: "string \<Rightarrow> molecule" where
  "mol name = \<lparr>identity = name, conformers = []\<rparr>"

definition demo_backend :: backend where
  "demo_backend =
     \<lparr>new_wrapper = (\<lambda>cls. Inr \<lparr>wrapper_class = cls\<rparr>),
      enumerate_tautomers = (\<lambda>m n tk.
         if identity m = ''keto'' then Inr [mol ''enol1'', mol ''enol2'', mol ''enol3'']
         else if identity m = ''bad'' then Inl (ToolkitError ''bad valence'')
         else if identity m = ''twin'' then Inr [mol ''bad'']
         else Inr []),
      enumerate_stereoisomers = (\<lambda>m undef n rational tk.
         if identity m = ''CHFClBr'' then Inr [mol ''R'', mol ''S'', mol ''open'']
         else if identity m = ''bad'' then Inl (ToolkitError ''bad valence'')
         else Inr []),
      enumerate_protomers = (\<lambda>m n.
         if identity m = ''bad'' then Inl (ToolkitError ''bad valence'') else Inr [mol ''anion'']),
      generate_conformers = (\<lambda>m n. Inr [7]),
      check_missing_stereo = (\<lambda>m. Inr (identity m = ''CHFClBr'' \<or> identity m = ''open'')),
      importable = (\<lambda>name. True),
      version = (\<lambda>name. ''1.0''),
      custom_apply = (\<lambda>c cache ms. Inr (foldl add_molecule (new_result c []) ms)),
      custom_provenance = (\<lambda>c. Inr [])\<rparr>"

text \<open>The provenance that the test backend gives the enumerators configured for OpenEye.\<close>

definition demo_provenance :: "(string \<times> string) list" where
  "demo_provenance =
     [(''openff-toolkit'', ''1.0''), (''openff-qcsubmit'', ''1.0''), (''openeye'', ''1.0'')]"

lemma demo_provenance:
  "provenance demo_backend (EnumerateTautomers ''openeye'' n) = Inr demo_provenance"
  "provenance demo_backend (EnumerateStereoisomers ''openeye'' u n r) = Inr demo_provenance"
  "provenance demo_backend (EnumerateProtomers ''openeye'' n) = Inr demo_provenance"
  by (simp_all add: toolkit_provenance_def demo_backend_def demo_provenance_def)

section \<open>Tautomer enumeration\<close>

text \<open>
  C2: whenever the toolkit returns tautomers for a molecule, the loop body of the tautomer
  enumerator adds every tautomer and then the input molecule itself to \<^verbatim>\<open>passed\<close> and leaves
  \<^verbatim>\<open>filtered\<close> alone. Run through \<^verbatim>\<open>apply\<close> on that one molecule (any worker count, the
  provenance collected and the wrapper constructed), with the tautomers and the input of
  pairwise different identities, \<^verbatim>\<open>passed\<close> holds exactly the tautomers followed by the
  input, one entry more than there are tautomers (four for three), and \<^verbatim>\<open>filtered\<close> is
  empty.
\<close>

theorem C2_tautomers_keep_input:
  assumes enum: "enumerate_tautomers b m max_n tk = Inr tautomers"
  shows "except_filter (try_tautomers b max_n tk r m) =
           add_molecule (foldl add_molecule r tautomers) m \<and>
         passed_ids (except_filter (try_tautomers b max_n tk r m)) =
           passed_ids r \<union> identity ` set tautomers \<union> {identity m} \<and>
         filtered (except_filter (try_tautomers b max_n tk r m)) = filtered r \<and>
         (provenance b (EnumerateTautomers t max_n) = Inr prov \<longrightarrow>
          apply_init b (EnumerateTautomers t max_n) cache0 = Inr cache \<longrightarrow>
          cache ''toolkit'' = Some tk \<longrightarrow>
          distinct (map identity (tautomers @ [m])) \<longrightarrow>
          (\<exists>out. apply_dispatch b (EnumerateTautomers t max_n) cache0 [m] processors verbose =
                   Inr out \<and>
             passed (result out) = map (\<lambda>x. (identity x, x)) (tautomers @ [m]) \<and>
             length (passed (result out)) = length tautomers + 1 \<and>
             filtered (result out) = []))"
proof (intro conjI impI)
  let ?c = "EnumerateTautomers t max_n"
  show step: "except_filter (try_tautomers b max_n tk r m) =
           add_molecule (foldl add_molecule r tautomers) m"
    using enum by (simp add: try_tautomers_def)
  show "passed_ids (except_filter (try_tautomers b max_n tk r m)) =
           passed_ids r \<union> identity ` set tautomers \<union> {identity m}"
    using enum by (auto simp: try_tautomers_def)
  show "filtered (except_filter (try_tautomers b max_n tk r m)) = filtered r"
    using enum by (simp add: try_tautomers_def)
  assume prov: "provenance b ?c = Inr prov"
    and init: "apply_init b ?c cache0 = Inr cache"
    and tk: "cache ''toolkit'' = Some tk"
    and dist: "distinct (map identity (tautomers @ [m]))"
  have create: "create_result b ?c = Inr (new_result ?c prov)"
    using prov by (simp add: create_result_def)
  define u where "u = add_molecule (foldl add_molecule (new_result ?c prov) tautomers) m"
  have unit: "apply_inner b ?c cache [m] = Inr u"
    using tk enum create by (simp add: try_tautomers_def u_def)
  have "passed (foldl add_molecule (new_result ?c prov) (tautomers @ [m])) =
          map (\<lambda>x. (identity x, x)) (tautomers @ [m])"
    using passed_foldl_add_fresh [OF dist, of "new_result ?c prov"] by simp
  then have pu: "passed u = map (\<lambda>x. (identity x, x)) (tautomers @ [m])"
    by (simp add: u_def)
  have fu: "filtered u = []" by (simp add: u_def)
  have mu: "molecules u = tautomers @ [m]"
    by (simp add: molecules_def pu comp_def)
  have mp: "passed (merge_work (new_result ?c prov) u) =
      map (\<lambda>x. (identity x, x)) (tautomers @ [m])"
    and mf: "filtered (merge_work (new_result ?c prov) u) = []"
    using merge_work_no_filtered [of u ?c prov] fu dist mu by simp_all
  show "\<exists>out. apply_dispatch b ?c cache0 [m] processors verbose = Inr out \<and>
          passed (result out) = map (\<lambda>x. (identity x, x)) (tautomers @ [m]) \<and>
          length (passed (result out)) = length tautomers + 1 \<and>
          filtered (result out) = []"
    using create init unit mp mf
    by (auto simp: apply_dispatch_def run_pool_def Let_def
        simp del: apply_inner.simps apply_init.simps)
qed

text \<open>
  The scenario of the specification: maximum 20, three tautomers from the toolkit, one
  call of \<^verbatim>\<open>apply\<close>; four entries passed, none filtered.
\<close>

theorem C2_tautomers_keep_input_witness:
  "\<exists>out. apply_dispatch demo_backend (EnumerateTautomers ''openeye'' 20) Map.empty
            [mol ''keto''] None True = Inr out \<and>
     map fst (passed (result out)) = [''enol1'', ''enol2'', ''enol3'', ''keto''] \<and>
     length (passed (result out)) = 4 \<and>
     filtered (result out) = []"
proof -
  let ?tk = "\<lparr>wrapper_class = OpenEyeToolkitWrapper\<rparr>"
  have enum: "enumerate_tautomers demo_backend (mol ''keto'') 20 ?tk =
      Inr [mol ''enol1'', mol ''enol2'', mol ''enol3'']"
    by (simp add: demo_backend_def mol_def)
  have init: "apply_init demo_backend (EnumerateTautomers ''openeye'' 20) Map.empty =
      Inr [''toolkit'' \<mapsto> ?tk]"
    by (simp add: demo_backend_def default_toolkits_def)
  have dist: "distinct (map identity ([mol ''enol1'', mol ''enol2'', mol ''enol3''] @ [mol ''keto'']))"
    by (simp add: mol_def)
  have tk: "[''toolkit'' \<mapsto> ?tk] ''toolkit'' = Some ?tk" by simp
  have prov: "provenance demo_backend (EnumerateTautomers ''openeye'' 20) = Inr demo_provenance"
    by (rule demo_provenance)
  from C2_tautomers_keep_input [OF enum, THEN conjunct2, THEN conjunct2, THEN conjunct2,
      rule_format, OF prov init tk dist]
  obtain out where
    o: "apply_dispatch demo_backend (EnumerateTautomers ''openeye'' 20) Map.empty
          [mol ''keto''] None True = Inr out"
       "passed (result out) =
          map (\<lambda>x. (identity x, x)) ([mol ''enol1'', mol ''enol2'', mol ''enol3''] @ [mol ''keto''])"
       "filtered (result out) = []"
    by blast
  from o(2) have "map fst (passed (result out)) = [''enol1'', ''enol2'', ''enol3'', ''keto'']"
    by (simp add: mol_def)
  moreover from o(2) have "length (passed (result out)) = 4" by simp
  ultimately show ?thesis using o(1) o(3) by (intro exI [of _ out]) simp
qed

section \<open>Stereoisomer enumeration\<close>




section \<open>The two branches of the dispatcher\<close>

text \<open>
  Collecting the outcomes of the pool in issue order is the sequential loop; and when every
  unit returns, \<^verbatim>\<open>apply\<close> returns the units merged in the order of the input.
\<close>

lemma collect_work_map:
  "collect_work r (map (\<lambda>m. apply_inner b c cache [m]) ms) = run_sequential b c cache r ms"
  by (induction ms arbitrary: r) (simp_all split: sum.splits)

lemma run_pool_sequential: "run_pool b c cache r ms = run_sequential b c cache r ms"
  by (simp add: run_pool_def collect_work_map)

lemma run_sequential_units:
  "\<forall>m \<in> set ms. apply_inner b c cache [m] = Inr (unit m) \<Longrightarrow>
   run_sequential b c cache r ms = Inr (foldl (\<lambda>r m. merge_work r (unit m)) r ms)"
  by (induction ms arbitrary: r) simp_all

lemma apply_dispatch_units:
  assumes create: "create_result b c = Inr r0"
    and init: "apply_init b c cache0 = Inr cache"
    and units: "\<forall>m \<in> set ms. apply_inner b c cache [m] = Inr (unit m)"
  shows "\<exists>out. apply_dispatch b c cache0 ms processors verbose = Inr out \<and>
           result out = foldl (\<lambda>r m. merge_work r (unit m)) r0 ms"
  using create init run_sequential_units [OF units, of r0]
  by (simp add: apply_dispatch_def run_pool_sequential del: apply_init.simps)

text \<open>
  Both loops written as folds over the outcomes: once an exception has been raised nothing
  more is merged.
\<close>

lemma foldl_raised:
  "foldl (\<lambda>acc x. case acc of Inl e \<Rightarrow> Inl e | Inr r \<Rightarrow> f r x) (Inl e) xs = Inl e"
  by (induction xs) simp_all

lemma collect_work_fold:
  "collect_work r ws =
     foldl (\<lambda>acc work. case acc of Inl e \<Rightarrow> Inl e
              | Inr r \<Rightarrow> (case work of Inl e \<Rightarrow> Inl e | Inr w \<Rightarrow> Inr (merge_work r w)))
       (Inr r) ws"
proof (induction ws arbitrary: r)
  case Nil
  then show ?case by simp
next
  case (Cons w ws)
  show ?case
  proof (cases w)
    case (Inl e)
    then show ?thesis
      using foldl_raised [of "\<lambda>r work. case work of Inl e \<Rightarrow> Inl e | Inr w \<Rightarrow> Inr (merge_work r w)"
          e ws]
      by simp
  next
    case (Inr work)
    with Cons.IH [of "merge_work r work"] show ?thesis by simp
  qed
qed

lemma run_sequential_fold:
  "run_sequential b c cache r ms =
     foldl (\<lambda>acc m. case acc of Inl e \<Rightarrow> Inl e
              | Inr r \<Rightarrow> (case apply_inner b c cache [m] of
                            Inl e \<Rightarrow> Inl e | Inr w \<Rightarrow> Inr (merge_work r w)))
       (Inr r) ms"
proof (induction ms arbitrary: r)
  case Nil
  then show ?case by simp
next
  case (Cons m ms)
  show ?case
  proof (cases "apply_inner b c cache [m]")
    case (Inl e)
    then show ?thesis
      using foldl_raised [of "\<lambda>r m. case apply_inner b c cache [m] of
          Inl e \<Rightarrow> Inl e | Inr w \<Rightarrow> Inr (merge_work r w)" e ms]
      by simp
  next
    case (Inr work)
    with Cons.IH [of "merge_work r work"] show ?thesis by simp
  qed
qed

lemma merge_work_fields [simp]:
  "component_description (merge_work r w) = component_description r"
  "skip_unique_check (merge_work r w) = skip_unique_check r"
  by (simp_all add: merge_work_def)

lemma run_sequential_fields:
  "run_sequential b c cache r ms = Inr r' \<Longrightarrow>
   component_description r' = component_description r \<and>
   skip_unique_check r' = skip_unique_check r"
proof (induction ms arbitrary: r)
  case Nil
  then show ?case by simp
next
  case (Cons m ms)
  then show ?case by (cases "apply_inner b c cache [m]") (simp_all del: apply_inner.simps)
qed

section \<open>Execution mode\<close>

text \<open>A component of some other class that declares itself not parallel-safe.\<close>

definition plain_component :: component where
  "plain_component =
     CustomWorkflowComponent ''Plain'' ''Passes every molecule.'' ''Never fails.''
       \<lparr>process_parallel = False, produces_duplicates = False\<rparr>"

text \<open>On the test backend \<^verbatim>\<open>apply\<close> returns, for every list of molecules and worker count.\<close>

lemma demo_units_tautomers:
  "\<exists>out. apply_dispatch demo_backend (EnumerateTautomers ''openeye'' 20) Map.empty
      ms processors verbose = Inr out"
proof -
  let ?c = "EnumerateTautomers ''openeye'' 20"
  let ?tk = "\<lparr>wrapper_class = OpenEyeToolkitWrapper\<rparr>"
  let ?r0 = "new_result ?c demo_provenance"
  have create: "create_result demo_backend ?c = Inr ?r0"
    using demo_provenance(1) [of 20] by (simp add: create_result_def del: provenance.simps)
  have init: "apply_init demo_backend ?c Map.empty = Inr [''toolkit'' \<mapsto> ?tk]"
    by (simp add: demo_backend_def default_toolkits_def)
  have "\<forall>m \<in> set ms.
      apply_inner demo_backend ?c [''toolkit'' \<mapsto> ?tk] [m] =
        Inr (except_filter (try_tautomers demo_backend 20 ?tk ?r0 m))"
    using create by simp
  from apply_dispatch_units [OF create init this] show ?thesis by blast
qed

lemma demo_units_plain:
  "\<exists>out. apply_dispatch demo_backend plain_component Map.empty ms processors verbose = Inr out"
proof -
  have create: "create_result demo_backend plain_component =
      Inr (new_result plain_component [])"
    by (simp add: create_result_def plain_component_def demo_backend_def)
  have init: "apply_init demo_backend plain_component Map.empty = Inr Map.empty"
    by (simp add: plain_component_def)
  have "\<forall>m \<in> set ms.
      apply_inner demo_backend plain_component Map.empty [m] =
        Inr (add_molecule (new_result plain_component []) m)"
    by (simp add: plain_component_def demo_backend_def)
  from apply_dispatch_units [OF create init this] show ?thesis by blast
qed

text \<open>
  C5: every call of \<^verbatim>\<open>apply\<close>, whether it returns or raises, is one of the following. An
  exception of the creation of the result or of \<^verbatim>\<open>_apply_init\<close> leaves it before any unit
  is run. Otherwise, if the component declares \<^verbatim>\<open>process_parallel=True\<close> and the worker
  count is unspecified or greater than one, it creates the worker pool with the worker
  count it was given, issues one unit per molecule to it, and merges the outcomes in the
  order of issue, the first exception among them leaving \<^verbatim>\<open>apply\<close>; in every other case
  it creates no pool and runs the units one after the other in the calling context,
  merging each outcome as it comes, the first exception leaving \<^verbatim>\<open>apply\<close>. So a call that
  returns has used the pool if and only if the component is parallel-safe and the worker
  count is unspecified or greater than one, and has run sequentially if and only if not.
\<close>

theorem C5_execution_mode:
  "apply_dispatch b c cache0 ms processors verbose =
     (case create_result b c of
        Inl e \<Rightarrow> Inl e
      | Inr result0 \<Rightarrow>
          (case apply_init b c cache0 of
             Inl e \<Rightarrow> Inl e
           | Inr cache \<Rightarrow>
               if process_parallel (properties c) \<and>
                  (processors = None \<or> (\<exists>n. processors = Some n \<and> 1 < n))
               then
                 map_sum id
                   (\<lambda>r. \<lparr>result = r, final_cache = Map.empty,
                         execution = WorkerPool processors\<rparr>)
                   (foldl (\<lambda>acc work. case acc of Inl e \<Rightarrow> Inl e
                             | Inr r \<Rightarrow> (case work of
                                           Inl e \<Rightarrow> Inl e
                                         | Inr w \<Rightarrow> Inr (merge_work r w)))
                      (Inr result0) (map (\<lambda>m. apply_inner b c cache [m]) ms))
               else
                 map_sum id
                   (\<lambda>r. \<lparr>result = r, final_cache = Map.empty, execution = Sequential\<rparr>)
                   (foldl (\<lambda>acc m. case acc of Inl e \<Rightarrow> Inl e
                             | Inr r \<Rightarrow> (case apply_inner b c cache [m] of
                                           Inl e \<Rightarrow> Inl e
                                         | Inr w \<Rightarrow> Inr (merge_work r w)))
                      (Inr result0) ms))) \<and>
   (\<forall>out. apply_dispatch b c cache0 ms processors verbose = Inr out \<longrightarrow>
      (execution out = WorkerPool processors) =
        (process_parallel (properties c) \<and>
         (processors = None \<or> (\<exists>n. processors = Some n \<and> 1 < n))) \<and>
      (execution out = Sequential) =
        (\<not> (process_parallel (properties c) \<and>
            (processors = None \<or> (\<exists>n. processors = Some n \<and> 1 < n)))))"
proof -
  have cond: "((case processors of None \<Rightarrow> True | Some n \<Rightarrow> 1 < n) \<and>
      process_parallel (properties c)) =
     (process_parallel (properties c) \<and>
      (processors = None \<or> (\<exists>n. processors = Some n \<and> 1 < n)))"
    by (cases processors) auto
  have eq: "apply_dispatch b c cache0 ms processors verbose =
     (case create_result b c of
        Inl e \<Rightarrow> Inl e
      | Inr result0 \<Rightarrow>
          (case apply_init b c cache0 of
             Inl e \<Rightarrow> Inl e
           | Inr cache \<Rightarrow>
               if process_parallel (properties c) \<and>
                  (processors = None \<or> (\<exists>n. processors = Some n \<and> 1 < n))
               then
                 map_sum id
                   (\<lambda>r. \<lparr>result = r, final_cache = Map.empty,
                         execution = WorkerPool processors\<rparr>)
                   (foldl (\<lambda>acc work. case acc of Inl e \<Rightarrow> Inl e
                             | Inr r \<Rightarrow> (case work of
                                           Inl e \<Rightarrow> Inl e
                                         | Inr w \<Rightarrow> Inr (merge_work r w)))
                      (Inr result0) (map (\<lambda>m. apply_inner b c cache [m]) ms))
               else
                 map_sum id
                   (\<lambda>r. \<lparr>result = r, final_cache = Map.empty, execution = Sequential\<rparr>)
                   (foldl (\<lambda>acc m. case acc of Inl e \<Rightarrow> Inl e
                             | Inr r \<Rightarrow> (case apply_inner b c cache [m] of
                                           Inl e \<Rightarrow> Inl e
                                         | Inr w \<Rightarrow> Inr (merge_work r w)))
                      (Inr result0) ms)))"
  proof (cases "create_result b c")
    case (Inl e)
    then show ?thesis by (simp add: apply_dispatch_def)
  next
    case r0: (Inr result0)
    show ?thesis
    proof (cases "apply_init b c cache0")
      case (Inl e)
      with r0 show ?thesis by (simp add: apply_dispatch_def del: apply_init.simps)
    next
      case ca: (Inr cache)
      show ?thesis
      proof (cases "process_parallel (properties c) \<and>
                  (processors = None \<or> (\<exists>n. processors = Some n \<and> 1 < n))")
        case True
        with cond have c1: "(case processors of None \<Rightarrow> True | Some n \<Rightarrow> 1 < n) \<and>
            process_parallel (properties c)" by simp
        have "apply_dispatch b c cache0 ms processors verbose =
            (case run_pool b c cache result0 ms of
               Inl e \<Rightarrow> Inl e
             | Inr r \<Rightarrow> Inr \<lparr>result = r, final_cache = apply_finalize c cache,
                             execution = WorkerPool processors\<rparr>)"
          by (simp only: apply_dispatch_def r0 ca sum.case if_P [OF c1])
        also have "\<dots> = map_sum id
            (\<lambda>r. \<lparr>result = r, final_cache = Map.empty, execution = WorkerPool processors\<rparr>)
            (run_pool b c cache result0 ms)"
          by (cases "run_pool b c cache result0 ms") (simp_all add: apply_finalize_def)
        finally have "apply_dispatch b c cache0 ms processors verbose = map_sum id
            (\<lambda>r. \<lparr>result = r, final_cache = Map.empty, execution = WorkerPool processors\<rparr>)
            (run_pool b c cache result0 ms)" .
        then show ?thesis
          by (simp only: r0 ca sum.case if_P [OF True] run_pool_def Let_def collect_work_fold)
      next
        case False
        with cond have c1: "\<not> ((case processors of None \<Rightarrow> True | Some n \<Rightarrow> 1 < n) \<and>
            process_parallel (properties c))" by simp
        have "apply_dispatch b c cache0 ms processors verbose =
            (case run_sequential b c cache result0 ms of
               Inl e \<Rightarrow> Inl e
             | Inr r \<Rightarrow> Inr \<lparr>result = r, final_cache = apply_finalize c cache,
                             execution = Sequential\<rparr>)"
          by (simp only: apply_dispatch_def r0 ca sum.case if_not_P [OF c1])
        also have "\<dots> = map_sum id
            (\<lambda>r. \<lparr>result = r, final_cache = Map.empty, execution = Sequential\<rparr>)
            (run_sequential b c cache result0 ms)"
          by (cases "run_sequential b c cache result0 ms") (simp_all add: apply_finalize_def)
        finally have "apply_dispatch b c cache0 ms processors verbose = map_sum id
            (\<lambda>r. \<lparr>result = r, final_cache = Map.empty, execution = Sequential\<rparr>)
            (run_sequential b c cache result0 ms)" .
        then show ?thesis
          by (simp only: r0 ca sum.case if_not_P [OF False] run_sequential_fold)
      qed
    qed
  qed
  have tag: "(execution out = WorkerPool processors) =
        (process_parallel (properties c) \<and>
         (processors = None \<or> (\<exists>n. processors = Some n \<and> 1 < n))) \<and>
      (execution out = Sequential) =
        (\<not> (process_parallel (properties c) \<and>
            (processors = None \<or> (\<exists>n. processors = Some n \<and> 1 < n))))"
    if "apply_dispatch b c cache0 ms processors verbose = Inr out" for out
    using that unfolding apply_dispatch_def cond
    by (auto split: sum.splits if_splits simp del: apply_init.simps)
  from eq tag show ?thesis by blast
qed

text \<open>
  Unspecified and four workers use the pool, one worker does not, and neither does a
  component that is not parallel-safe.
\<close>

theorem C5_execution_mode_witness:
  "(\<exists>out. apply_dispatch demo_backend (EnumerateTautomers ''openeye'' 20) Map.empty
            [mol ''keto'', mol ''bad''] None True = Inr out \<and> execution out = WorkerPool None) \<and>
   (\<exists>out. apply_dispatch demo_backend (EnumerateTautomers ''openeye'' 20) Map.empty
            [mol ''keto'', mol ''bad''] (Some 4) True = Inr out \<and>
           execution out = WorkerPool (Some 4)) \<and>
   (\<exists>out. apply_dispatch demo_backend (EnumerateTautomers ''openeye'' 20) Map.empty
            [mol ''keto'', mol ''bad''] (Some 1) True = Inr out \<and> execution out = Sequential) \<and>
   (\<exists>out. apply_dispatch demo_backend plain_component Map.empty
            [mol ''keto''] None True = Inr out \<and> execution out = Sequential)"
proof -
  let ?c = "EnumerateTautomers ''openeye'' 20"
  let ?ms = "[mol ''keto'', mol ''bad'']"
  obtain o1 where o1: "apply_dispatch demo_backend ?c Map.empty ?ms None True = Inr o1"
    using demo_units_tautomers by blast
  obtain o2 where o2: "apply_dispatch demo_backend ?c Map.empty ?ms (Some 4) True = Inr o2"
    using demo_units_tautomers by blast
  obtain o3 where o3: "apply_dispatch demo_backend ?c Map.empty ?ms (Some 1) True = Inr o3"
    using demo_units_tautomers by blast
  obtain o4 where o4: "apply_dispatch demo_backend plain_component Map.empty [mol ''keto'']
      None True = Inr o4"
    using demo_units_plain by blast
  have "execution o1 = WorkerPool None"
    using C5_execution_mode [THEN conjunct2, rule_format, OF o1] by simp
  moreover have "execution o2 = WorkerPool (Some 4)"
    using C5_execution_mode [THEN conjunct2, rule_format, OF o2] by simp
  moreover have "execution o3 = Sequential"
    using C5_execution_mode [THEN conjunct2, rule_format, OF o3] by simp
  moreover have "execution o4 = Sequential"
    using C5_execution_mode [THEN conjunct2, rule_format, OF o4]
    by (simp add: plain_component_def)
  ultimately show ?thesis using o1 o2 o3 o4 by simp
qed

text \<open>
  C6: for a parallel-safe component, a call of \<^verbatim>\<open>apply\<close> that takes the pool branch (worker
  count unspecified or above one) and a call that takes the sequential branch (worker count
  at most one) on the same input either raise the same exception or return results with
  the same passed identities and the same filtered identities (here even in the same
  order, the outcomes of the pool being collected in issue order). Every molecule of the
  list is taken to be an object of its own.
\<close>

theorem C6_parallel_sequential_equivalence:
  assumes par: "process_parallel (properties c)"
    and pool: "processors = None \<or> (\<exists>n. processors = Some n \<and> 1 < n)"
    and seq: "processors' = Some n' \<and> n' \<le> 1"
  shows "map_sum id result (apply_dispatch b c cache0 ms processors verbose) =
           map_sum id result (apply_dispatch b c cache0 ms processors' verbose') \<and>
         (\<forall>o1 o2. apply_dispatch b c cache0 ms processors verbose = Inr o1 \<and>
                  apply_dispatch b c cache0 ms processors' verbose' = Inr o2 \<longrightarrow>
            execution o1 = WorkerPool processors \<and> execution o2 = Sequential \<and>
            passed_ids (result o1) = passed_ids (result o2) \<and>
            filtered_ids (result o1) = filtered_ids (result o2) \<and>
            passed (result o1) = passed (result o2) \<and>
            filtered (result o1) = filtered (result o2))"
proof -
  have p: "(case processors of None \<Rightarrow> True | Some n \<Rightarrow> 1 < n) \<and>
      process_parallel (properties c)"
    using pool par by (auto split: option.splits)
  have s: "\<not> ((case processors' of None \<Rightarrow> True | Some n \<Rightarrow> 1 < n) \<and>
      process_parallel (properties c))"
    using seq by auto
  have pool_eq: "apply_dispatch b c cache0 ms processors verbose =
      (case create_result b c of Inl e \<Rightarrow> Inl e
       | Inr result0 \<Rightarrow>
          (case apply_init b c cache0 of Inl e \<Rightarrow> Inl e
           | Inr cache \<Rightarrow>
               (case run_sequential b c cache result0 ms of Inl e \<Rightarrow> Inl e
                | Inr r \<Rightarrow> Inr \<lparr>result = r, final_cache = apply_finalize c cache,
                                execution = WorkerPool processors\<rparr>)))"
    by (simp only: apply_dispatch_def if_P [OF p] run_pool_sequential)
  have seq_eq: "apply_dispatch b c cache0 ms processors' verbose' =
      (case create_result b c of Inl e \<Rightarrow> Inl e
       | Inr result0 \<Rightarrow>
          (case apply_init b c cache0 of Inl e \<Rightarrow> Inl e
           | Inr cache \<Rightarrow>
               (case run_sequential b c cache result0 ms of Inl e \<Rightarrow> Inl e
                | Inr r \<Rightarrow> Inr \<lparr>result = r, final_cache = apply_finalize c cache,
                                execution = Sequential\<rparr>)))"
    by (simp only: apply_dispatch_def if_not_P [OF s])
  show ?thesis
    unfolding pool_eq seq_eq by (auto split: sum.splits)
qed

text \<open>The tautomer enumerator on two molecules, with the pool and with one worker.\<close>

theorem C6_parallel_sequential_equivalence_witness:
  "\<exists>o1 o2. apply_dispatch demo_backend (EnumerateTautomers ''openeye'' 20) Map.empty
              [mol ''keto'', mol ''bad''] None True = Inr o1 \<and>
           apply_dispatch demo_backend (EnumerateTautomers ''openeye'' 20) Map.empty
              [mol ''keto'', mol ''bad''] (Some 1) False = Inr o2 \<and>
           execution o1 = WorkerPool None \<and> execution o2 = Sequential \<and>
           passed_ids (result o1) = passed_ids (result o2) \<and>
           filtered_ids (result o1) = filtered_ids (result o2)"
proof -
  let ?c = "EnumerateTautomers ''openeye'' 20"
  let ?ms = "[mol ''keto'', mol ''bad'']"
  obtain o1 where o1: "apply_dispatch demo_backend ?c Map.empty ?ms None True = Inr o1"
    using demo_units_tautomers by blast
  obtain o2 where o2: "apply_dispatch demo_backend ?c Map.empty ?ms (Some 1) False = Inr o2"
    using demo_units_tautomers by blast
  have par: "process_parallel (properties ?c)" by simp
  have pool: "(None :: int option) = None \<or> (\<exists>n. (None :: int option) = Some n \<and> 1 < n)" by simp
  have seq: "Some (1 :: int) = Some 1 \<and> (1 :: int) \<le> 1" by simp
  from C6_parallel_sequential_equivalence [OF par pool seq, THEN conjunct2, rule_format,
      of demo_backend Map.empty ?ms True o1 False o2] o1 o2
  show ?thesis by (intro exI [of _ o1] exI [of _ o2]) simp
qed

section \<open>The uniqueness check of a created result\<close>

text \<open>
  C10, against the claim: the tautomer enumerator with its default settings declares
  \<^verbatim>\<open>produces_duplicates=True\<close>, and the result it creates has \<^verbatim>\<open>skip_unique_check=False\<close>: the
  uniqueness check is not skipped.
\<close>

theorem C10_enumerator_check_not_skipped:
  "produces_duplicates (properties (EnumerateTautomers ''openeye'' 20)) \<and>
   map_sum id skip_unique_check
     (create_result demo_backend (EnumerateTautomers ''openeye'' 20)) = Inr False"
  using demo_provenance(1) [of 20]
  by (simp add: create_result_def del: provenance.simps)

text \<open>
  C10, amended: every result a component creates is fresh (nothing passed, nothing
  filtered, the component's own type and configuration) and skips the uniqueness check
  exactly when the component declares \<^verbatim>\<open>produces_duplicates=False\<close>; the three enumerators
  declare \<^verbatim>\<open>produces_duplicates=True\<close>, so every result they create has
  \<^verbatim>\<open>skip_unique_check=False\<close>. Creating the result fails only when the provenance cannot
  be collected. A call of \<^verbatim>\<open>apply\<close> that returns has created such a result first, and the
  result it returns still carries the component's configuration and the same setting of
  the uniqueness check.
\<close>

theorem C10_skip_unique_check:
  "passed (new_result c prov) = [] \<and> filtered (new_result c prov) = [] \<and>
   component_name (new_result c prov) = type_name c \<and>
   component_description (new_result c prov) = c \<and>
   (skip_unique_check (new_result c prov) = (\<not> produces_duplicates (properties c))) \<and>
   \<not> skip_unique_check (new_result (EnumerateTautomers tk n) prov) \<and>
   \<not> skip_unique_check (new_result (EnumerateStereoisomers tk u n ra) prov) \<and>
   \<not> skip_unique_check (new_result (EnumerateProtomers tk n) prov) \<and>
   create_result b c = map_sum id (new_result c) (provenance b c) \<and>
   (\<forall>r. create_result b c = Inr r \<longrightarrow>
      passed r = [] \<and> filtered r = [] \<and> component_name r = type_name c \<and>
      component_description r = c \<and>
      skip_unique_check r = (\<not> produces_duplicates (properties c))) \<and>
   (\<forall>out. apply_dispatch b c cache0 ms processors verbose = Inr out \<longrightarrow>
      (\<exists>r0. create_result b c = Inr r0) \<and>
      component_description (result out) = c \<and>
      skip_unique_check (result out) = (\<not> produces_duplicates (properties c)))"
proof -
  have link: "(\<exists>r0. create_result b c = Inr r0) \<and>
      component_description (result out) = c \<and>
      skip_unique_check (result out) = (\<not> produces_duplicates (properties c))"
    if out: "apply_dispatch b c cache0 ms processors verbose = Inr out" for out
  proof -
    from out obtain r0 where r0: "create_result b c = Inr r0"
      by (cases "create_result b c") (simp_all add: apply_dispatch_def)
    with out obtain cache where ca: "apply_init b c cache0 = Inr cache"
      by (cases "apply_init b c cache0") (simp_all add: apply_dispatch_def del: apply_init.simps)
    from out r0 ca have "run_sequential b c cache r0 ms = Inr (result out)"
      by (auto simp: apply_dispatch_def run_pool_sequential split: if_splits sum.splits
          simp del: apply_init.simps)
    from run_sequential_fields [OF this] r0 show ?thesis
      by (auto simp: create_result_def split: sum.splits)
  qed
  have cr: "create_result b c = map_sum id (new_result c) (provenance b c)"
    by (cases "provenance b c") (simp_all add: create_result_def)
  have fresh: "passed r = [] \<and> filtered r = [] \<and> component_name r = type_name c \<and>
      component_description r = c \<and>
      skip_unique_check r = (\<not> produces_duplicates (properties c))"
    if "create_result b c = Inr r" for r
    using that by (auto simp: create_result_def split: sum.splits)
  from link cr fresh show ?thesis by simp
qed

text \<open>
  The tautomer enumerator returns a result that checks uniqueness, a component declaring
  \<^verbatim>\<open>produces_duplicates=False\<close> one that skips the check.
\<close>

theorem C10_skip_unique_check_witness:
  "(\<exists>out. apply_dispatch demo_backend (EnumerateTautomers ''openeye'' 20) Map.empty
            [mol ''keto'', mol ''bad''] None True = Inr out \<and>
          \<not> skip_unique_check (result out)) \<and>
   (\<exists>out. apply_dispatch demo_backend plain_component Map.empty [mol ''keto''] None True =
            Inr out \<and> skip_unique_check (result out)) \<and>
   create_result demo_backend (EnumerateTautomers ''openeye'' 20) =
     Inr (new_result (EnumerateTautomers ''openeye'' 20) demo_provenance)"
proof -
  let ?c = "EnumerateTautomers ''openeye'' 20"
  obtain o1 where o1: "apply_dispatch demo_backend ?c Map.empty [mol ''keto'', mol ''bad'']
      None True = Inr o1"
    using demo_units_tautomers by blast
  obtain o2 where o2: "apply_dispatch demo_backend plain_component Map.empty [mol ''keto'']
      None True = Inr o2"
    using demo_units_plain by blast
  note t1 = C10_skip_unique_check [of ?c _ _ _ _ _ demo_backend Map.empty
      "[mol ''keto'', mol ''bad'']" None True]
  note t2 = C10_skip_unique_check [of plain_component _ _ _ _ _ demo_backend Map.empty
      "[mol ''keto'']" None True]
  have a: "\<not> skip_unique_check (result o1)"
    using t1 o1 by simp
  have b: "skip_unique_check (result o2)"
    using t2 o2 by (simp add: plain_component_def)
  have c: "create_result demo_backend ?c = Inr (new_result ?c demo_provenance)"
    using t1 demo_provenance(1) [of 20] by (simp del: provenance.simps)
  from a b c o1 o2 show ?thesis by blast
qed

section \<open>The enumerators, uniformly\<close>

text \<open>
  The three enumerators have the same shape: a \<^verbatim>\<open>try\<close> block per molecule and the same
  handler. \<^verbatim>\<open>attempt_of\<close> is the \<^verbatim>\<open>try\<close> block of a component, \<^verbatim>\<open>loop_body\<close> the block with its
  handler. A molecule \<^verbatim>\<open>raises\<close> when its \<^verbatim>\<open>try\<close> block ends with an exception, which
  depends on the answers of the backend for it and not on the result built so far.
\<close>

fun is_enumerator :: "component \<Rightarrow> bool" where
  "is_enumerator (CustomWorkflowComponent t d f p) = False"
| "is_enumerator c = True"

fun attempt_of ::
  "backend \<Rightarrow> component \<Rightarrow> toolkit_wrapper \<Rightarrow> component_result \<Rightarrow> molecule \<Rightarrow> attempt" where
  "attempt_of b (EnumerateTautomers t n) tk r m = try_tautomers b n tk r m"
| "attempt_of b (EnumerateStereoisomers t u n ra) tk r m = try_stereoisomers b u n ra tk r m"
| "attempt_of b (EnumerateProtomers t n) tk r m = try_protomers b n r m"
| "attempt_of b (CustomWorkflowComponent t d f p) tk r m = (r, m, None)"

definition loop_body ::
  "backend \<Rightarrow> component \<Rightarrow> toolkit_wrapper \<Rightarrow> component_result \<Rightarrow> molecule \<Rightarrow> component_result"
  where
  "loop_body b c tk r m = except_filter (attempt_of b c tk r m)"

definition raises :: "backend \<Rightarrow> component \<Rightarrow> toolkit_wrapper \<Rightarrow> molecule \<Rightarrow> bool" where
  "raises b c tk m = (snd (snd (attempt_of b c tk (new_result c []) m)) \<noteq> None)"

lemma apply_inner_enumerator:
  "is_enumerator c \<Longrightarrow> cache ''toolkit'' = Some tk \<Longrightarrow> provenance b c = Inr prov \<Longrightarrow>
   apply_inner b c cache ms = Inr (foldl (loop_body b c tk) (new_result c prov) ms)"
  by (cases c)
    (simp_all add: loop_body_def [abs_def] create_result_def truthy_def del: provenance.simps)

text \<open>What a try block can and cannot do to the result.\<close>

lemma add_defined_keeps:
  "add_defined b r isomers = (r', ex) \<Longrightarrow>
   filtered r' = filtered r \<and> component_description r' = component_description r \<and>
   passed_ids r \<subseteq> passed_ids r' \<and> (well_keyed r \<longrightarrow> well_keyed r')"
proof (induction isomers arbitrary: r)
  case Nil
  then show ?case by simp
next
  case (Cons i isomers)
  show ?case
  proof (cases "check_missing_stereo b i")
    case (Inl e)
    with Cons.prems show ?thesis by simp
  next
    case (Inr missing)
    let ?r1 = "if \<not> missing then add_molecule r i else r"
    from Cons.prems Inr have "add_defined b ?r1 isomers = (r', ex)" by simp
    from Cons.IH [OF this] show ?thesis by (auto split: if_splits)
  qed
qed

lemma add_defined_exception:
  "snd (add_defined b r isomers) = snd (add_defined b r2 isomers)"
  by (induction isomers arbitrary: r r2) (auto split: sum.splits)

lemma attempt_keeps:
  assumes "attempt_of b c tk r m = (r', m', ex)"
  shows "filtered r' = filtered r \<and> component_description r' = component_description r \<and>
         passed_ids r \<subseteq> passed_ids r' \<and> (well_keyed r \<longrightarrow> well_keyed r') \<and>
         identity m' = identity m"
proof (cases c)
  case (EnumerateTautomers t n)
  with assms show ?thesis by (auto simp: try_tautomers_def split: sum.splits)
next
  case (EnumerateStereoisomers t u n ra)
  with assms have a: "try_stereoisomers b u n ra tk r m = (r', m', ex)" by simp
  show ?thesis
  proof (cases "enumerate_stereoisomers b m u n ra tk")
    case (Inl e)
    with a show ?thesis by (simp add: try_stereoisomers_def)
  next
    case (Inr isomers)
    obtain r1 ex1 where ad: "add_defined b r isomers = (r1, ex1)" by (cases "add_defined b r isomers")
    note k = add_defined_keeps [OF ad]
    from a Inr ad k show ?thesis
      by (auto simp: try_stereoisomers_def split: sum.splits option.splits if_splits)
  qed
next
  case (EnumerateProtomers t n)
  with assms show ?thesis by (auto simp: try_protomers_def split: sum.splits)
next
  case (CustomWorkflowComponent t d f p)
  with assms show ?thesis by auto
qed

lemma attempt_exception:
  "snd (snd (attempt_of b c tk r m)) = snd (snd (attempt_of b c tk r2 m))"
proof (cases c)
  case (EnumerateStereoisomers t u n ra)
  show ?thesis
  proof (cases "enumerate_stereoisomers b m u n ra tk")
    case (Inl e)
    with EnumerateStereoisomers show ?thesis by (simp add: try_stereoisomers_def)
  next
    case (Inr isomers)
    obtain r1 ex1 where ad: "add_defined b r isomers = (r1, ex1)" by (cases "add_defined b r isomers")
    obtain r3 ex3 where ad2: "add_defined b r2 isomers = (r3, ex3)" by (cases "add_defined b r2 isomers")
    from add_defined_exception [of b r isomers r2] ad ad2 have "ex1 = ex3" by simp
    with EnumerateStereoisomers Inr ad ad2 show ?thesis
      by (auto simp: try_stereoisomers_def split: sum.splits option.splits)
  qed
qed (auto simp: try_tautomers_def try_protomers_def split: sum.splits)

lemma raises_any_state:
  "raises b c tk m = (snd (snd (attempt_of b c tk r m)) \<noteq> None)"
  unfolding raises_def using attempt_exception [of b c tk r m "new_result c []"] by simp

lemma loop_body_keeps:
  "component_description (loop_body b c tk r m) = component_description r \<and>
   (well_keyed r \<longrightarrow> well_keyed (loop_body b c tk r m)) \<and>
   filtered_ids (loop_body b c tk r m) =
     filtered_ids r \<union> (if raises b c tk m then {identity m} else {}) \<and>
   passed_ids r - {identity m} \<subseteq> passed_ids (loop_body b c tk r m)"
proof -
  obtain r' m' ex where a: "attempt_of b c tk r m = (r', m', ex)"
    by (cases "attempt_of b c tk r m")
  note k = attempt_keeps [OF a]
  from k have f: "filtered_ids r' = filtered_ids r" by (simp add: filtered_ids_def)
  from a have rs: "raises b c tk m = (ex \<noteq> None)"
    using raises_any_state [of b c tk m r] by simp
  show ?thesis
  proof (cases ex)
    case None
    with a k f rs show ?thesis by (auto simp: loop_body_def)
  next
    case (Some e)
    with a k f rs show ?thesis by (auto simp: loop_body_def)
  qed
qed




lemma well_keyed_molecules:
  assumes "well_keyed w"
  shows "identity ` set (molecules w) = passed_ids w"
proof -
  from assms have "\<forall>p \<in> set (passed w). (identity \<circ> snd) p = fst p"
    by (auto simp: well_keyed_def)
  then have "map (identity \<circ> snd) (passed w) = map fst (passed w)"
    by (simp only: map_eq_conv)
  then have "set (map identity (map snd (passed w))) = set (map fst (passed w))"
    by (simp only: map_map)
  then show ?thesis by (simp only: molecules_def passed_ids_def set_map)
qed

lemma well_keyed_filtered_molecules:
  assumes "well_keyed w"
  shows "identity ` set (filtered_molecules w) = filtered_ids w"
proof -
  from assms have "\<forall>p \<in> set (filtered w). (identity \<circ> (\<lambda>(k, m, reason). m)) p = fst p"
    by (auto simp: well_keyed_def)
  then have "map (identity \<circ> (\<lambda>(k, m, reason). m)) (filtered w) = map fst (filtered w)"
    by (simp only: map_eq_conv)
  then have "set (map identity (map (\<lambda>(k, m, reason). m) (filtered w))) =
      set (map fst (filtered w))"
    by (simp only: map_map)
  then show ?thesis by (simp only: filtered_molecules_def filtered_ids_def set_map)
qed

lemma merge_work_keeps:
  "component_description (merge_work r w) = component_description r \<and>
   (well_keyed r \<longrightarrow> well_keyed (merge_work r w)) \<and>
   filtered_ids (merge_work r w) = filtered_ids r \<union> identity ` set (filtered_molecules w) \<and>
   passed_ids (merge_work r w) =
     (passed_ids r \<union> identity ` set (molecules w)) - identity ` set (filtered_molecules w)"
  by (simp add: merge_work_def)

lemma foldl_merge_keeps:
  assumes "\<forall>m \<in> set ms. well_keyed (unit m)"
  shows "component_description (foldl (\<lambda>r m. merge_work r (unit m)) r ms) =
           component_description r \<and>
         (well_keyed r \<longrightarrow> well_keyed (foldl (\<lambda>r m. merge_work r (unit m)) r ms)) \<and>
         filtered_ids (foldl (\<lambda>r m. merge_work r (unit m)) r ms) =
           filtered_ids r \<union> (\<Union>m \<in> set ms. filtered_ids (unit m)) \<and>
         passed_ids (foldl (\<lambda>r m. merge_work r (unit m)) r ms) \<union>
         filtered_ids (foldl (\<lambda>r m. merge_work r (unit m)) r ms) =
           passed_ids r \<union> filtered_ids r \<union>
           (\<Union>m \<in> set ms. passed_ids (unit m) \<union> filtered_ids (unit m)) \<and>
         passed_ids (foldl (\<lambda>r m. merge_work r (unit m)) r ms) \<subseteq>
           passed_ids r \<union> (\<Union>m \<in> set ms. passed_ids (unit m))"
  using assms
proof (induction ms arbitrary: r)
  case Nil
  then show ?case by simp
next
  case (Cons m ms)
  from Cons.prems have wk: "well_keyed (unit m)" and rest: "\<forall>m \<in> set ms. well_keyed (unit m)"
    by simp_all
  note ih = Cons.IH [OF rest, of "merge_work r (unit m)"]
  note mk = merge_work_keeps [of r "unit m"]
  note a = well_keyed_molecules [OF wk] well_keyed_filtered_molecules [OF wk]
  have c1: "component_description (foldl (\<lambda>r m. merge_work r (unit m)) r (m # ms)) =
           component_description r" using ih mk by simp
  have c2: "well_keyed r \<longrightarrow> well_keyed (foldl (\<lambda>r m. merge_work r (unit m)) r (m # ms))"
    using ih mk by simp
  have c3: "filtered_ids (foldl (\<lambda>r m. merge_work r (unit m)) r (m # ms)) =
           filtered_ids r \<union> (\<Union>m \<in> set (m # ms). filtered_ids (unit m))"
    using ih mk a by auto
  have c4: "passed_ids (foldl (\<lambda>r m. merge_work r (unit m)) r (m # ms)) \<union>
         filtered_ids (foldl (\<lambda>r m. merge_work r (unit m)) r (m # ms)) =
           passed_ids r \<union> filtered_ids r \<union>
           (\<Union>m \<in> set (m # ms). passed_ids (unit m) \<union> filtered_ids (unit m))"
  proof -
    have "passed_ids (merge_work r (unit m)) \<union> filtered_ids (merge_work r (unit m)) =
        passed_ids r \<union> filtered_ids r \<union> (passed_ids (unit m) \<union> filtered_ids (unit m))"
      using mk a by auto
    with ih show ?thesis by auto
  qed
  have c5: "passed_ids (foldl (\<lambda>r m. merge_work r (unit m)) r (m # ms)) \<subseteq>
           passed_ids r \<union> (\<Union>m \<in> set (m # ms). passed_ids (unit m))"
  proof -
    have "passed_ids (merge_work r (unit m)) \<subseteq> passed_ids r \<union> passed_ids (unit m)"
      using mk a by auto
    with ih show ?thesis by auto
  qed
  from c1 c2 c3 c4 c5 show ?case by blast
qed

section \<open>Exceptions of the toolkit\<close>



lemma raises_protomers:
  "raises b (EnumerateProtomers t n) tk m = (\<exists>e. enumerate_protomers b m n = Inl e)"
  by (auto simp: raises_def try_protomers_def split: sum.splits)



section \<open>Accounting for the input molecules\<close>


definition unit_of ::
  "backend \<Rightarrow> component \<Rightarrow> toolkit_wrapper \<Rightarrow> (string \<times> string) list \<Rightarrow> molecule \<Rightarrow>
   component_result" where
  "unit_of b c tk prov m = loop_body b c tk (new_result c prov) m"

text \<open>
  A unit that gets through filters nothing; a unit that raises filters its input alone,
  and filtering removes it from the passed ones. So within one unit the two collections
  share no identity.
\<close>

lemma apply_init_enumerator:
  "is_enumerator c \<Longrightarrow> apply_init b c cache0 = Inr cache \<Longrightarrow> \<exists>tk. cache ''toolkit'' = Some tk"
  by (cases c) (auto split: option.splits sum.splits)

lemma apply_inner_unit:
  assumes "is_enumerator c" "cache ''toolkit'' = Some tk" "provenance b c = Inr prov"
  shows "apply_inner b c cache [m] = Inr (unit_of b c tk prov m)"
  using apply_inner_enumerator [where cache = cache and b = b and ms = "[m]", OF assms]
  by (simp add: unit_of_def)

lemma well_keyed_unit: "well_keyed (unit_of b c tk prov m)"
  using loop_body_keeps [of b c tk "new_result c prov" m] by (simp add: unit_of_def)





text \<open>
  Merging a unit adds its passed molecules and then removes its filtered ones from the
  passed ones; it never removes anything from the filtered ones. The identities passed in
  the end are therefore those that some unit passes and no later unit filters.
\<close>

definition surviving :: "(molecule \<Rightarrow> component_result) \<Rightarrow> molecule list \<Rightarrow> string set" where
  "surviving unit ms =
     {k. \<exists>pre m post. ms = pre @ m # post \<and>
           k \<in> passed_ids (unit m) - filtered_ids (unit m) \<and>
           (\<forall>m' \<in> set post. k \<notin> filtered_ids (unit m'))}"

lemma surviving_Nil [simp]: "surviving unit [] = {}"
  by (simp add: surviving_def)






section \<open>Protomer enumeration without its provider\<close>

text \<open>
  \<^verbatim>\<open>EnumerateProtomers\<close> accepts the one toolkit name \<^verbatim>\<open>openeye\<close>. What its \<^verbatim>\<open>_apply\<close> reads
  from the cache as \<^verbatim>\<open>has_oe\<close> is the wrapper instance that \<^verbatim>\<open>_apply_init\<close> stored there,
  and an instance is true: the \<^verbatim>\<open>else\<close> branch, which would filter the whole batch, is
  never taken.
\<close>

lemma protomers_else_branch_unreached:
  "apply_inner b (EnumerateProtomers t max_n) cache ms =
     (case create_result b (EnumerateProtomers t max_n) of
        Inl e \<Rightarrow> Inl e
      | Inr result0 \<Rightarrow>
          (case cache ''toolkit'' of
             None \<Rightarrow> Inl (KeyError ''toolkit'')
           | Some has_oe \<Rightarrow>
               Inr (foldl (\<lambda>res m. except_filter (try_protomers b max_n res m)) result0 ms)))"
  by (simp add: truthy_def split: sum.splits option.splits)

text \<open>
  Before \<^verbatim>\<open>_apply\<close> is reached, \<^verbatim>\<open>apply\<close> creates its result, which imports the package
  \<^verbatim>\<open>openeye\<close> for the provenance, and constructs the wrapper. When the package cannot be
  imported the first of the two raises, when the wrapper cannot be constructed the second
  does, and the exception leaves \<^verbatim>\<open>apply\<close>: for every list of molecules and every worker
  count there is no result.
\<close>

lemma protomers_package_missing:
  assumes "\<not> importable b ''openeye''"
  shows "apply_dispatch b (EnumerateProtomers ''openeye'' max_n) cache0 ms processors verbose =
           Inl (ModuleNotFoundError (''No module named '' @ py_repr ''openeye''))"
    and "apply_inner b (EnumerateProtomers ''openeye'' max_n) cache ms =
           Inl (ModuleNotFoundError (''No module named '' @ py_repr ''openeye''))"
  using assms by (simp_all add: apply_dispatch_def create_result_def toolkit_provenance_def)

lemma protomers_wrapper_fails:
  assumes "importable b ''openeye''" "new_wrapper b OpenEyeToolkitWrapper = Inl e"
  shows "apply_dispatch b (EnumerateProtomers ''openeye'' max_n) cache0 ms processors verbose =
           Inl e"
  using assms by (simp add: apply_dispatch_def create_result_def toolkit_provenance_def)

text \<open>
  And when \<^verbatim>\<open>apply\<close> of the protomer enumerator does return, the molecules it has filtered
  are those whose own call of \<^verbatim>\<open>enumerate_protomers\<close> raised.
\<close>

lemma protomers_filtered_own_failures:
  assumes out: "apply_dispatch b (EnumerateProtomers t max_n) cache0 ms processors verbose =
      Inr out"
  shows "filtered_ids (result out) =
           identity ` {m \<in> set ms. \<exists>e. enumerate_protomers b m max_n = Inl e}"
proof -
  let ?c = "EnumerateProtomers t max_n"
  have enum: "is_enumerator ?c" by simp
  from out obtain r0 where r0: "create_result b ?c = Inr r0"
    by (cases "create_result b ?c") (simp_all add: apply_dispatch_def)
  then obtain prov where prov: "provenance b ?c = Inr prov" and r0n: "r0 = new_result ?c prov"
    using create_result_cases [of b ?c _ _ r0] by blast
  from out r0 obtain cache where init: "apply_init b ?c cache0 = Inr cache"
    by (cases "apply_init b ?c cache0") (simp_all add: apply_dispatch_def del: apply_init.simps)
  from apply_init_enumerator [OF enum init] obtain tk where tk: "cache ''toolkit'' = Some tk"
    by blast
  let ?unit = "unit_of b ?c tk prov"
  have units: "\<forall>m \<in> set ms. apply_inner b ?c cache [m] = Inr (?unit m)"
    using apply_inner_unit [where cache = cache, OF enum tk prov] by simp
  from apply_dispatch_units [OF r0 init units, of processors verbose] out r0n
  have res: "result out = foldl (\<lambda>r m. merge_work r (?unit m)) (new_result ?c prov) ms" by auto
  have wku: "\<forall>m \<in> set ms. well_keyed (?unit m)" by (simp add: well_keyed_unit)
  have one: "filtered_ids (?unit m) =
      (if \<exists>e. enumerate_protomers b m max_n = Inl e then {identity m} else {})" for m
    using loop_body_keeps [of b ?c tk "new_result ?c prov" m]
    by (simp add: unit_of_def raises_protomers)
  have "filtered_ids (result out) = (\<Union>m \<in> set ms. filtered_ids (?unit m))"
    unfolding res
    using foldl_merge_keeps [OF wku, of "new_result ?c prov", THEN conjunct2, THEN conjunct2,
        THEN conjunct1] by simp
  also have "\<dots> = identity ` {m \<in> set ms. \<exists>e. enumerate_protomers b m max_n = Inl e}"
    unfolding one by auto
  finally show ?thesis .
qed

text \<open>
  Two installations without the provider: in the first the package \<^verbatim>\<open>openeye\<close> is not
  installed, so that neither the import nor the constructor of the wrapper succeeds; in
  the second the package is installed and the constructor of the wrapper refuses (as it
  does without a licence). On both, every call of \<^verbatim>\<open>enumerate_protomers\<close> would fail.
\<close>

definition backend_without_openeye :: backend where
  "backend_without_openeye =
     demo_backend
       \<lparr>new_wrapper := (\<lambda>cls.
          if cls = OpenEyeToolkitWrapper
          then Inl (ToolkitError ''The required toolkit OpenEye Toolkit is not available.'')
          else Inr \<lparr>wrapper_class = cls\<rparr>),
        enumerate_protomers := (\<lambda>m n. Inl (ModuleNotFoundError ''No module named openeye'')),
        importable := (\<lambda>name. name \<noteq> ''openeye'')\<rparr>"

definition backend_unlicensed :: backend where
  "backend_unlicensed = backend_without_openeye\<lparr>importable := (\<lambda>name. True)\<rparr>"

definition five_molecules :: "molecule list" where
  "five_molecules = [mol ''m1'', mol ''m2'', mol ''m3'', mol ''m4'', mol ''m5'']"

text \<open>
  With the provider installed the protomer enumerator does its work: on the test backend
  the five molecules and their protomer are passed and nothing is filtered.
\<close>

lemma protomers_with_provider:
  "map_sum id (map fst \<circ> passed \<circ> result)
     (apply_dispatch demo_backend (EnumerateProtomers ''openeye'' 10) Map.empty
        five_molecules None True) =
     Inr [''anion'', ''m1'', ''m2'', ''m3'', ''m4'', ''m5''] \<and>
   map_sum id (filtered \<circ> result)
     (apply_dispatch demo_backend (EnumerateProtomers ''openeye'' 10) Map.empty
        five_molecules None True) = Inr []"
  by (simp add: apply_dispatch_def run_pool_def create_result_def toolkit_provenance_def
      demo_backend_def try_protomers_def truthy_def five_molecules_def
      merge_work_def molecules_def filtered_molecules_def add_molecule_def filter_molecule_def
      new_result_def mol_def merge_conformers_def)

text \<open>
  C4, against the claim: with the provider unavailable, \<^verbatim>\<open>apply\<close> of the protomer enumerator
  on five molecules returns no result at all, for an unspecified worker count and for one
  worker. Where the package is not installed it raises the \<^verbatim>\<open>ModuleNotFoundError\<close> of
  \<^verbatim>\<open>import openeye\<close> from the creation of its result, and \<^verbatim>\<open>_apply_init\<close> and \<^verbatim>\<open>_apply\<close> on
  their own raise as well; where the package is installed and the wrapper cannot be
  constructed it raises the exception of the constructor. Nothing is filtered: the claim
  has five entries in \<^verbatim>\<open>filtered\<close> and \<^verbatim>\<open>passed\<close> empty.
\<close>

theorem C4_protomers_provider_missing_raises:
  "apply_dispatch backend_without_openeye (EnumerateProtomers ''openeye'' 10) Map.empty
     five_molecules None True =
     Inl (ModuleNotFoundError (''No module named '' @ py_repr ''openeye'')) \<and>
   apply_dispatch backend_without_openeye (EnumerateProtomers ''openeye'' 10) Map.empty
     five_molecules (Some 1) True =
     Inl (ModuleNotFoundError (''No module named '' @ py_repr ''openeye'')) \<and>
   apply_init backend_without_openeye (EnumerateProtomers ''openeye'' 10) Map.empty =
     Inl (ToolkitError ''The required toolkit OpenEye Toolkit is not available.'') \<and>
   apply_inner backend_without_openeye (EnumerateProtomers ''openeye'' 10) Map.empty
     five_molecules =
     Inl (ModuleNotFoundError (''No module named '' @ py_repr ''openeye'')) \<and>
   apply_dispatch backend_unlicensed (EnumerateProtomers ''openeye'' 10) Map.empty
     five_molecules None True =
     Inl (ToolkitError ''The required toolkit OpenEye Toolkit is not available.'') \<and>
   length five_molecules = 5"
proof -
  have missing: "\<not> importable backend_without_openeye ''openeye''"
    by (simp add: backend_without_openeye_def)
  have init: "apply_init backend_without_openeye (EnumerateProtomers ''openeye'' 10) Map.empty =
      Inl (ToolkitError ''The required toolkit OpenEye Toolkit is not available.'')"
    by (simp add: backend_without_openeye_def)
  have "importable backend_unlicensed ''openeye''"
    and "new_wrapper backend_unlicensed OpenEyeToolkitWrapper =
      Inl (ToolkitError ''The required toolkit OpenEye Toolkit is not available.'')"
    by (simp_all add: backend_unlicensed_def backend_without_openeye_def)
  from protomers_wrapper_fails [OF this] protomers_package_missing [OF missing] init
  show ?thesis by (simp add: five_molecules_def)
qed

section \<open>The earlier module\<close>

text \<open>
  \<^verbatim>\<open>src/qcsubmit/workflow_components/state_enumeration.py\<close> is an earlier copy of the three
  enumerators, written against a base class of the package \<^verbatim>\<open>qcsubmit\<close> that is not among the
  source files; the development above embeds the module of the package \<^verbatim>\<open>openff.qcsubmit\<close>,
  whose base class is. The \<^verbatim>\<open>try\<close> blocks of the earlier tautomer and stereoisomer enumerators
  are recorded here for comparison: they keep the input molecule only when the toolkit
  returns nothing (or, for stereoisomers, when \<^verbatim>\<open>include_input\<close> is set, and then instead of
  the isomers), and they make no check of the stereochemistry. The earlier protomer
  enumerator tests its field \<^verbatim>\<open>cache\<close>, which is \<^verbatim>\<open>False\<close> unless assigned, and in that case
  assigns the list of molecules to \<^verbatim>\<open>result.filtered\<close>; with neither its base class nor the
  result class among the source files, it is not embedded.
\<close>

definition legacy_try_tautomers ::
  "backend \<Rightarrow> int \<Rightarrow> toolkit_wrapper \<Rightarrow> component_result \<Rightarrow> molecule \<Rightarrow> attempt" where
  "legacy_try_tautomers b max_n tk res m =
     (case enumerate_tautomers b m max_n tk of
        Inl e \<Rightarrow> (res, m, Some e)
      | Inr tautomers \<Rightarrow>
          (if length tautomers = 0 then add_molecule res m
           else foldl add_molecule res tautomers, m, None))"

definition legacy_try_stereoisomers ::
  "backend \<Rightarrow> bool \<Rightarrow> int \<Rightarrow> bool \<Rightarrow> bool \<Rightarrow> toolkit_wrapper \<Rightarrow> component_result \<Rightarrow>
   molecule \<Rightarrow> attempt" where
  "legacy_try_stereoisomers b undef max_n rational include_input tk res m =
     (case enumerate_stereoisomers b m undef max_n rational tk of
        Inl e \<Rightarrow> (res, m, Some e)
      | Inr isomers \<Rightarrow>
          (if length isomers = 0 \<or> include_input then add_molecule res m
           else foldl add_molecule res isomers, m, None))"

lemma legacy_tautomers_without_input:
  assumes "enumerate_tautomers b m max_n tk = Inr tautomers" "tautomers \<noteq> []"
  shows "passed_ids (except_filter (legacy_try_tautomers b max_n tk r m)) =
           passed_ids r \<union> identity ` set tautomers \<and>
         filtered (except_filter (legacy_try_tautomers b max_n tk r m)) = filtered r"
  using assms by (simp add: legacy_try_tautomers_def)

lemma legacy_stereoisomers_unchecked:
  assumes "enumerate_stereoisomers b m undef max_n rational tk = Inr isomers" "isomers \<noteq> []"
  shows "passed_ids (except_filter
           (legacy_try_stereoisomers b undef max_n rational False tk r m)) =
           passed_ids r \<union> identity ` set isomers"
  using assms by (simp add: legacy_try_stereoisomers_def)

lemma legacy_tautomers_on_keto:
  "map fst (passed (except_filter (legacy_try_tautomers demo_backend 20
       \<lparr>wrapper_class = OpenEyeToolkitWrapper\<rparr>
       (new_result (EnumerateTautomers ''openeye'' 20) []) (mol ''keto'')))) =
     [''enol1'', ''enol2'', ''enol3'']"
  by (simp add: legacy_try_tautomers_def demo_backend_def mol_def add_molecule_def
      new_result_def)

end
